theory Spec2Isabelle
  imports Complex_Main "HOL-Library.Log_Nat"
begin

section \<open>The weather server of mcp-demo (weather-server/src/index.ts)\<close>

text \<open>
  The server is one TypeScript class, \<^verbatim>\<open>WeatherMCPServer\<close>: a tool-call dispatcher, three
  handlers (\<^verbatim>\<open>getCurrentWeather\<close>, \<^verbatim>\<open>getWeatherForecast\<close>, \<^verbatim>\<open>searchLocations\<close>) and
  the aggregation \<^verbatim>\<open>processForecastData\<close>.

  Conventions of the embedding.
  \<^item> A JavaScript number is an IEEE double, held as the \<^typ>\<open>rat\<close> it denotes: every
    addition, multiplication and division of the source is the exact operation followed by
    \<open>fl\<close>, rounding to the nearest double, a tie to the even mantissa. The exponent range is
    not bounded: there is no overflow to an infinity, no subnormal number and no \<^verbatim>\<open>NaN\<close>.
    A number of a provider payload is the decimal of the JSON text, and reading it gives the
    nearest double (\<open>fl\<close> leaves a double as it is, \<open>fl_idem\<close>). A number among the
    arguments of a request (\<open>JNum\<close>) is the value of the JavaScript number that the handler
    receives. Counters and array lengths are \<^typ>\<open>nat\<close>, a Unix timestamp is an
    \<^typ>\<open>int\<close>.
  \<^item> A string is a byte list (UTF-8).
  \<^item> A \<^verbatim>\<open>throw\<close> (or a rejected promise) is the \<open>Inl\<close> branch of a sum.
  \<^item> What the host provides (the environment variable, \<^verbatim>\<open>fetch\<close>, the locale, the clock,
    number printing) is a field of the record \<open>host\<close>; every theorem holds for every host.
  \<^item> The provider's JSON bodies are taken at their documented shape (typed records).
\<close>

subsection \<open>Thrown values\<close>

text \<open>
  The issues of a failing \<^verbatim>\<open>Schema.parse\<close>, with the data from which zod writes the
  message of each: the path (the name of the field, empty at the root), what was expected
  and the type received, the value received and the options of an enumeration, the bound.
\<close>

datatype zod_expected = ZString | ZNumber | ZObject | ZEnum "string list"

datatype zod_issue =
    invalid_type string zod_expected string
  | invalid_enum_value string string "string list"
  | too_small string rat
  | too_big string rat

text \<open>
  \<open>Error m\<close> is an instance of \<^verbatim>\<open>Error\<close> (or of a subclass) with message \<open>m\<close>;
  \<open>ZodError\<close> is the instance of \<^verbatim>\<open>Error\<close> that a failing \<^verbatim>\<open>Schema.parse\<close> throws;
  \<open>NonError\<close> is any thrown value that is not an instance of \<^verbatim>\<open>Error\<close>.
\<close>

datatype thrown = Error string | ZodError "zod_issue list" | NonError

subsection \<open>Provider payloads and the host\<close>

record weather_payload =
  data_name :: string
  data_sys_country :: string
  data_main_temp :: rat
  data_weather0_description :: string
  data_main_humidity :: rat
  data_wind_speed :: rat

record forecast_item =
  dt :: int
  main_temp :: rat
  main_humidity :: rat
  wind_speed :: rat
  weather0_description :: string

record forecast_payload =
  data_list :: "forecast_item list"
  data_city_name :: string
  data_city_country :: string

record geo_item =
  item_name :: string
  item_country :: string
  item_state :: "string option"
  item_lat :: rat
  item_lon :: rat

record 'a http_response =
  ok :: bool
  status :: nat
  statusText :: string
  json :: "thrown + 'a"

record host =
  env_OPENWEATHER_API_KEY :: "string option"
  encodeURIComponent :: "string \<Rightarrow> thrown + string"
  fetch_weather :: "string \<Rightarrow> thrown + weather_payload http_response"
  fetch_forecast :: "string \<Rightarrow> thrown + forecast_payload http_response"
  fetch_geo :: "string \<Rightarrow> thrown + (geo_item list) http_response"
  number_toString :: "rat \<Rightarrow> string"
  toFixed4 :: "rat \<Rightarrow> string"
  toLocaleDateString :: "string \<Rightarrow> string"
  now_toLocaleString :: string
  zod_message :: "zod_issue list \<Rightarrow> string"

subsection \<open>Numbers and dates of the JavaScript runtime\<close>

text \<open>
  \<^verbatim>\<open>Math.round\<close> rounds to the nearest integer, a tie towards plus infinity. Its result on
  a double is a double, so no rounding follows it.
\<close>

definition Math_round :: "rat \<Rightarrow> rat" where
  "Math_round x = of_int \<lfloor>x + 1 / 2\<rfloor>"

text \<open>
  Rounding to the nearest double. \<open>rne\<close> rounds to the nearest integer, a tie to the even
  one; \<open>expo x\<close> is the binary exponent of \<open>x\<close>, the \<open>e\<close> with
  \<open>2^e \<le> \<bar>x\<bar> < 2^(e+1)\<close>; \<open>fl x\<close> rounds the mantissa of \<open>x\<close> to 53 bits.
\<close>

definition rne :: "rat \<Rightarrow> int" where
  "rne x =
     (let f = \<lfloor>x\<rfloor>; r = x - of_int f
      in if r < 1 / 2 then f
         else if 1 / 2 < r then f + 1
         else if even f then f else f + 1)"

definition expo :: "rat \<Rightarrow> int" where
  "expo x = (if 1 \<le> \<bar>x\<bar> then bitlen \<lfloor>\<bar>x\<bar>\<rfloor> - 1 else - bitlen (\<lceil>1 / \<bar>x\<bar>\<rceil> - 1))"

definition fl :: "rat \<Rightarrow> rat" where
  "fl x = (if x = 0 then 0
           else let k = expo x - 52 in 2 powi k * of_int (rne (x / 2 powi k)))"

text \<open>
  \<^verbatim>\<open>Math.min(...xs)\<close> and \<^verbatim>\<open>Math.max(...xs)\<close> of a non-empty array. On an empty array
  JavaScript gives an infinity, which is outside the number model: the equations leave
  that case open, and \<open>group_by_date_nonempty\<close> below shows that no bucket is empty.
\<close>

fun Math_min :: "rat list \<Rightarrow> rat" where
  "Math_min (x # xs) = fold min xs x"

fun Math_max :: "rat list \<Rightarrow> rat" where
  "Math_max (x # xs) = fold max xs x"

text \<open>The decimal digits of a whole number that is not negative, as JavaScript prints it.\<close>

definition digit :: "int \<Rightarrow> char" where
  "digit n = ''0123456789'' ! nat (n mod 10)"

function show_int :: "int \<Rightarrow> string" where
  "show_int n = (if n < 10 then [digit n] else show_int (n div 10) @ [digit (n mod 10)])"
  by pat_completeness auto
termination
  by (relation "measure nat") auto

declare show_int.simps [simp del]

definition show_nat :: "nat \<Rightarrow> string" where
  "show_nat n = show_int (int n)"

definition pad :: "nat \<Rightarrow> string \<Rightarrow> string" where
  "pad w s = replicate (w - length s) (CHR ''0'') @ s"

definition msPerDay :: int where
  "msPerDay = 86400000"

text \<open>
  Year, month (1 to 12) and day of the month of a day number counted from 1970-01-01, in
  the proleptic Gregorian calendar: what \<^verbatim>\<open>YearFromTime\<close>, \<^verbatim>\<open>MonthFromTime\<close> and
  \<^verbatim>\<open>DateFromTime\<close> of ECMAScript denote, computed by era (400 years = 146097 days).
\<close>

definition ymd_of_day :: "int \<Rightarrow> int \<times> int \<times> int" where
  "ymd_of_day n =
     (let z = n + 719468;
          era = z div 146097;
          doe = z mod 146097;
          yoe = (doe - doe div 1460 + doe div 36524 - doe div 146096) div 365;
          y = yoe + era * 400;
          doy = doe - (365 * yoe + yoe div 4 - yoe div 100);
          mp = (5 * doy + 2) div 153;
          d = doy - (153 * mp + 2) div 5 + 1;
          m = (if mp < 10 then mp + 3 else mp - 9)
      in (if m \<le> 2 then y + 1 else y, m, d))"

definition iso_year :: "int \<Rightarrow> string" where
  "iso_year y =
     (if 0 \<le> y \<and> y \<le> 9999 then pad 4 (show_int y)
      else (if y < 0 then ''-'' else ''+'') @ pad 6 (show_int \<bar>y\<bar>))"

definition iso_date :: "int \<Rightarrow> string" where
  "iso_date n =
     (case ymd_of_day n of (y, m, d) \<Rightarrow>
        iso_year y @ ''-'' @ pad 2 (show_int m) @ ''-'' @ pad 2 (show_int d))"

definition iso_time :: "int \<Rightarrow> string" where
  "iso_time ms =
     pad 2 (show_int (ms div 3600000)) @ '':'' @
     pad 2 (show_int (ms div 60000 mod 60)) @ '':'' @
     pad 2 (show_int (ms div 1000 mod 60)) @ ''.'' @
     pad 3 (show_int (ms mod 1000)) @ ''Z''"

text \<open>
  \<^verbatim>\<open>new Date(t).toISOString()\<close> for an integral time value \<open>t\<close> (milliseconds): a
  \<^verbatim>\<open>RangeError\<close> beyond 8.64e15 milliseconds from the epoch, where the date is invalid.
\<close>

definition toISOString :: "int \<Rightarrow> thrown + string" where
  "toISOString t =
     (if \<bar>t\<bar> > 8640000000000000 then Inl (Error ''Invalid time value'')
      else Inr (iso_date (t div msPerDay) @ ''T'' @ iso_time (t mod msPerDay)))"

text \<open>\<^verbatim>\<open>s.split('T')[0]\<close>: the part of \<open>s\<close> before its first \<^verbatim>\<open>T\<close>.\<close>

definition split_T_0 :: "string \<Rightarrow> string" where
  "split_T_0 s = takeWhile (\<lambda>c. c \<noteq> CHR ''T'') s"

subsection \<open>Arrays: stable sort with a comparator, pop\<close>

text \<open>
  \<^verbatim>\<open>Array.prototype.sort(cmp)\<close> is a stable sort (ECMAScript 2019): insertion sort from
  the right is its specification here. The comparator of the source reads the array
  being sorted; the runtime sorts a copy and writes it back at the end, so the comparator
  sees the array as it was before the call.
\<close>

fun insert_cmp :: "('a \<Rightarrow> 'a \<Rightarrow> int) \<Rightarrow> 'a \<Rightarrow> 'a list \<Rightarrow> 'a list" where
  "insert_cmp cmp x [] = [x]"
| "insert_cmp cmp x (y # ys) = (if cmp x y \<le> 0 then x # y # ys else y # insert_cmp cmp x ys)"

definition sort_cmp :: "('a \<Rightarrow> 'a \<Rightarrow> int) \<Rightarrow> 'a list \<Rightarrow> 'a list" where
  "sort_cmp cmp xs = foldr (insert_cmp cmp) xs []"

text \<open>\<^verbatim>\<open>xs.pop()\<close>: the last element, \<^verbatim>\<open>undefined\<close> (\<open>None\<close>) on an empty array.\<close>

definition pop :: "'a list \<Rightarrow> 'a option" where
  "pop xs = (if xs = [] then None else Some (last xs))"

subsection \<open>processForecastData\<close>

record daily_forecast =
  date :: string
  temperature_min :: rat
  temperature_max :: rat
  description :: string
  humidity :: rat
  windSpeed :: rat

text \<open>
  \<^verbatim>\<open>dailyData\<close> is a \<^verbatim>\<open>Map<string, any[]>\<close>, which iterates in insertion order: an
  association list with distinct keys, a new key at the end.
\<close>

type_synonym daily_map = "(string \<times> forecast_item list) list"

definition map_has :: "daily_map \<Rightarrow> string \<Rightarrow> bool" where
  "map_has m k = (k \<in> set (map fst m))"

fun map_set :: "daily_map \<Rightarrow> string \<Rightarrow> forecast_item list \<Rightarrow> daily_map" where
  "map_set [] k v = [(k, v)]"
| "map_set ((k', v') # m) k v = (if k' = k then (k', v) # m else (k', v') # map_set m k v)"

text \<open>\<^verbatim>\<open>dailyData.get(date)!.push(item)\<close>: the array stored under the key grows in place.\<close>

fun map_get_push :: "daily_map \<Rightarrow> string \<Rightarrow> forecast_item \<Rightarrow> daily_map" where
  "map_get_push [] k item = []"
| "map_get_push ((k', v') # m) k item =
     (if k' = k then (k', v' @ [item]) # m else (k', v') # map_get_push m k item)"

definition item_date :: "forecast_item \<Rightarrow> thrown + string" where
  "item_date item =
     (case toISOString (dt item * 1000) of
        Inl e \<Rightarrow> Inl e
      | Inr s \<Rightarrow> Inr (split_T_0 s))"

text \<open>The \<^verbatim>\<open>forEach\<close> that groups the entries by date; a throw ends it.\<close>

fun group_by_date :: "forecast_item list \<Rightarrow> daily_map \<Rightarrow> thrown + daily_map" where
  "group_by_date [] dailyData = Inr dailyData"
| "group_by_date (item # items) dailyData =
     (case item_date item of
        Inl e \<Rightarrow> Inl e
      | Inr date' \<Rightarrow>
          group_by_date items
            (map_get_push
               (if \<not> map_has dailyData date' then map_set dailyData date' [] else dailyData)
               date' item))"

definition day_forecast :: "host \<Rightarrow> string \<Rightarrow> forecast_item list \<Rightarrow> daily_forecast" where
  "day_forecast h date' forecasts =
     (let temps = map (\<lambda>f. fl (main_temp f)) forecasts;
          minTemp = Math_min temps;
          maxTemp = Math_max temps;
          descriptions = map weather0_description forecasts;
          mostCommon = pop (sort_cmp
             (\<lambda>a b. int (length (filter (\<lambda>v. v = a) descriptions))
                    - int (length (filter (\<lambda>v. v = b) descriptions)))
             descriptions);
          avgHumidity = Math_round
             (fl (foldl (\<lambda>sum f. fl (sum + fl (main_humidity f))) 0 forecasts
                  / of_nat (length forecasts)));
          avgWindSpeed = fl (Math_round
             (fl (fl (foldl (\<lambda>sum f. fl (sum + fl (wind_speed f))) 0 forecasts
                      / of_nat (length forecasts)) * 10)) / 10)
      in \<lparr> date = toLocaleDateString h date',
           temperature_min = fl (Math_round (fl (minTemp * 10)) / 10),
           temperature_max = fl (Math_round (fl (maxTemp * 10)) / 10),
           description = (case mostCommon of
                            None \<Rightarrow> ''Unknown''
                          | Some s \<Rightarrow> if s = [] then ''Unknown'' else s),
           humidity = avgHumidity,
           windSpeed = avgWindSpeed \<rparr>)"

text \<open>
  The \<^verbatim>\<open>for ... of dailyData.entries()\<close> loop with its counter and its \<^verbatim>\<open>break\<close>;
  \<open>days\<close> is a number, not necessarily whole.
\<close>

fun daily_loop ::
  "host \<Rightarrow> rat \<Rightarrow> daily_map \<Rightarrow> nat \<Rightarrow> daily_forecast list \<Rightarrow> daily_forecast list" where
  "daily_loop h days [] count dailyForecasts = dailyForecasts"
| "daily_loop h days ((date', forecasts) # rest) count dailyForecasts =
     (if of_nat count \<ge> days then dailyForecasts
      else daily_loop h days rest (count + 1)
             (dailyForecasts @ [day_forecast h date' forecasts]))"

definition processForecastData ::
  "host \<Rightarrow> forecast_item list \<Rightarrow> rat \<Rightarrow> thrown + daily_forecast list" where
  "processForecastData h forecastList days =
     (case group_by_date forecastList [] of
        Inl e \<Rightarrow> Inl e
      | Inr dailyData \<Rightarrow> Inr (daily_loop h days dailyData 0 []))"

subsection \<open>Tool arguments and the validation schemas\<close>

text \<open>
  The argument bag of a request is any JSON value, or \<^verbatim>\<open>undefined\<close> (\<open>None\<close>). An object is
  its list of members; a member that is absent reads as \<^verbatim>\<open>undefined\<close>.
\<close>

datatype json =
    JNull
  | JBool bool
  | JNum rat
  | JStr string
  | JArr "json list"
  | JObj "(string \<times> json) list"

text \<open>The name zod gives to the type of a value.\<close>

definition parsedType :: "json option \<Rightarrow> string" where
  "parsedType v =
     (case v of
        None \<Rightarrow> ''undefined''
      | Some JNull \<Rightarrow> ''null''
      | Some (JBool b) \<Rightarrow> ''boolean''
      | Some (JNum n) \<Rightarrow> ''number''
      | Some (JStr s) \<Rightarrow> ''string''
      | Some (JArr xs) \<Rightarrow> ''array''
      | Some (JObj ms) \<Rightarrow> ''object'')"

text \<open>\<^verbatim>\<open>z.string()\<close>\<close>

definition z_string :: "string \<Rightarrow> json option \<Rightarrow> zod_issue list + string" where
  "z_string path v =
     (case v of
        Some (JStr s) \<Rightarrow> Inr s
      | _ \<Rightarrow> Inl [invalid_type path ZString (parsedType v)])"

text \<open>\<^verbatim>\<open>z.enum(["metric", "imperial", "kelvin"]).default("metric")\<close>\<close>

definition z_units :: "string \<Rightarrow> json option \<Rightarrow> zod_issue list + string" where
  "z_units path v =
     (case v of
        None \<Rightarrow> Inr ''metric''
      | Some (JStr s) \<Rightarrow>
          if s \<in> set [''metric'', ''imperial'', ''kelvin''] then Inr s
          else Inl [invalid_enum_value path s [''metric'', ''imperial'', ''kelvin'']]
      | Some _ \<Rightarrow>
          Inl [invalid_type path (ZEnum [''metric'', ''imperial'', ''kelvin'']) (parsedType v)])"

text \<open>\<^verbatim>\<open>z.number().min(lo).max(hi).default(d)\<close>: any number within the bounds, whole or not.\<close>

definition z_number :: "rat \<Rightarrow> rat \<Rightarrow> rat \<Rightarrow> string \<Rightarrow> json option \<Rightarrow> zod_issue list + rat" where
  "z_number lo hi d path v =
     (case v of
        None \<Rightarrow> Inr d
      | Some (JNum n) \<Rightarrow>
          if n < lo then Inl [too_small path lo]
          else if n > hi then Inl [too_big path hi]
          else Inr n
      | Some _ \<Rightarrow> Inl [invalid_type path ZNumber (parsedType v)])"

definition issues :: "zod_issue list + 'a \<Rightarrow> zod_issue list" where
  "issues r = (case r of Inl is \<Rightarrow> is | Inr _ \<Rightarrow> [])"

definition GetCurrentWeatherSchema_parse :: "json option \<Rightarrow> thrown + string \<times> string" where
  "GetCurrentWeatherSchema_parse args =
     (case args of
        Some (JObj members) \<Rightarrow>
          (let location = z_string ''location'' (map_of members ''location'');
               units = z_units ''units'' (map_of members ''units'')
           in case (location, units) of
                (Inr l, Inr u) \<Rightarrow> Inr (l, u)
              | _ \<Rightarrow> Inl (ZodError (issues location @ issues units)))
      | _ \<Rightarrow> Inl (ZodError [invalid_type [] ZObject (parsedType args)]))"

definition GetWeatherForecastSchema_parse ::
  "json option \<Rightarrow> thrown + string \<times> rat \<times> string" where
  "GetWeatherForecastSchema_parse args =
     (case args of
        Some (JObj members) \<Rightarrow>
          (let location = z_string ''location'' (map_of members ''location'');
               days = z_number 1 5 3 ''days'' (map_of members ''days'');
               units = z_units ''units'' (map_of members ''units'')
           in case (location, days, units) of
                (Inr l, Inr d, Inr u) \<Rightarrow> Inr (l, d, u)
              | _ \<Rightarrow> Inl (ZodError (issues location @ issues days @ issues units)))
      | _ \<Rightarrow> Inl (ZodError [invalid_type [] ZObject (parsedType args)]))"

definition SearchLocationSchema_parse :: "json option \<Rightarrow> thrown + string \<times> rat" where
  "SearchLocationSchema_parse args =
     (case args of
        Some (JObj members) \<Rightarrow>
          (let query = z_string ''query'' (map_of members ''query'');
               limit = z_number 1 10 5 ''limit'' (map_of members ''limit'')
           in case (query, limit) of
                (Inr q, Inr l) \<Rightarrow> Inr (q, l)
              | _ \<Rightarrow> Inl (ZodError (issues query @ issues limit)))
      | _ \<Rightarrow> Inl (ZodError [invalid_type [] ZObject (parsedType args)]))"

subsection \<open>Responses and their text\<close>

datatype content_block = Content (block_type: string) (block_text: string)

record tool_response =
  content :: "content_block list"

definition text_response :: "string \<Rightarrow> tool_response" where
  "text_response t = \<lparr> content = [Content ''text'' t] \<rparr>"

definition nl :: string where
  "nl = [CHR 0x0A]"

definition dq :: string where
  "dq = [CHR 0x22]"

text \<open>The decorative glyphs of the templates, byte for byte as the source file has them.\<close>

definition glyph_temperature :: string where
  "glyph_temperature = [CHR 0xEF, CHR 0xA3, CHR 0xBF, CHR 0xC3, CHR 0xBC, CHR 0xC3, CHR 0xA5, CHR 0xC2, CHR 0xB0, CHR 0xC3, CHR 0x94, CHR 0xE2, CHR 0x88, CHR 0x8F, CHR 0xC3, CHR 0xA8]"

definition glyph_condition :: string where
  "glyph_condition = [CHR 0xEF, CHR 0xA3, CHR 0xBF, CHR 0xC3, CHR 0xBC, CHR 0xC3, CHR 0xA5, CHR 0xC2, CHR 0xA7, CHR 0xC3, CHR 0x94, CHR 0xE2, CHR 0x88, CHR 0x8F, CHR 0xC3, CHR 0xA8]"

definition glyph_humidity :: string where
  "glyph_humidity = [CHR 0xEF, CHR 0xA3, CHR 0xBF, CHR 0xC3, CHR 0xBC, CHR 0xC3, CHR 0xAD, CHR 0xC3, CHR 0x9F]"

definition glyph_wind :: string where
  "glyph_wind = [CHR 0xEF, CHR 0xA3, CHR 0xBF, CHR 0xC3, CHR 0xBC, CHR 0xC3, CHR 0xAD, CHR 0xC2, CHR 0xAE]"

definition glyph_pin :: string where
  "glyph_pin = [CHR 0xEF, CHR 0xA3, CHR 0xBF, CHR 0xC3, CHR 0xBC, CHR 0xC3, CHR 0xAC, CHR 0xC3, CHR 0xA7]"

definition glyph_degree :: string where
  "glyph_degree = [CHR 0xC2, CHR 0xAC, CHR 0xE2, CHR 0x88, CHR 0x9E]"

definition unitsDisplay :: "string \<Rightarrow> string" where
  "unitsDisplay units =
     (if units = ''metric'' then glyph_degree @ ''C''
      else if units = ''imperial'' then glyph_degree @ ''F''
      else ''K'')"

definition windUnits :: "string \<Rightarrow> string" where
  "windUnits units = (if units = ''metric'' then ''m/s'' else ''mph'')"

text \<open>
  \<^verbatim>\<open>String.prototype.trim\<close> on a byte string: the ASCII white space at both ends goes. (The
  texts trimmed below begin with an asterisk and end in ASCII.)
\<close>

definition is_space :: "char \<Rightarrow> bool" where
  "is_space c = (c \<in> set [CHR 0x20, CHR 0x09, CHR 0x0A, CHR 0x0B, CHR 0x0C, CHR 0x0D])"

definition trim :: "string \<Rightarrow> string" where
  "trim s = rev (dropWhile is_space (rev (dropWhile is_space s)))"

subsection \<open>The three handlers\<close>

text \<open>
  The three \<^verbatim>\<open>url\<close> templates; \<open>q\<close> is the encoded location or query.

  A handler returns the URLs it has requested with \<^verbatim>\<open>fetch\<close>, in order, and either the
  value thrown or the response.
\<close>

type_synonym outcome = "string list \<times> (thrown + tool_response)"

definition OPENWEATHER_API_KEY :: "host \<Rightarrow> string" where
  "OPENWEATHER_API_KEY h = (case env_OPENWEATHER_API_KEY h of None \<Rightarrow> [] | Some k \<Rightarrow> k)"

definition OPENWEATHER_BASE_URL :: string where
  "OPENWEATHER_BASE_URL = ''https://api.openweathermap.org/data/2.5''"

definition key_not_configured :: thrown where
  "key_not_configured = Error
     ''OpenWeather API key not configured. Please set OPENWEATHER_API_KEY environment variable.''"

definition location_not_found :: "string \<Rightarrow> thrown" where
  "location_not_found location = Error
     (''Location '' @ dq @ location @ dq @ '' not found. Please check the spelling and try again.'')"

definition weather_url :: "host \<Rightarrow> string \<Rightarrow> string \<Rightarrow> string" where
  "weather_url h q units =
     OPENWEATHER_BASE_URL @ ''/weather?q='' @ q @ ''&units='' @ units
     @ ''&appid='' @ OPENWEATHER_API_KEY h"

definition forecast_url :: "host \<Rightarrow> string \<Rightarrow> string \<Rightarrow> string" where
  "forecast_url h q units =
     OPENWEATHER_BASE_URL @ ''/forecast?q='' @ q @ ''&units='' @ units
     @ ''&appid='' @ OPENWEATHER_API_KEY h"

definition geo_url :: "host \<Rightarrow> string \<Rightarrow> rat \<Rightarrow> string" where
  "geo_url h q limit =
     ''https://api.openweathermap.org/geo/1.0/direct?q='' @ q @ ''&limit=''
     @ number_toString h limit @ ''&appid='' @ OPENWEATHER_API_KEY h"

definition currentWeatherText :: "host \<Rightarrow> weather_payload \<Rightarrow> string \<Rightarrow> string" where
  "currentWeatherText h data units =
     ''**Current Weather for '' @ (data_name data @ '', '' @ data_sys_country data) @ ''**'' @ nl
     @ nl
     @ glyph_temperature @ '' **Temperature:** ''
       @ number_toString h (fl (Math_round (fl (fl (data_main_temp data) * 10)) / 10))
       @ unitsDisplay units @ nl
     @ glyph_condition @ '' **Condition:** '' @ data_weather0_description data @ nl
     @ glyph_humidity @ '' **Humidity:** '' @ number_toString h (fl (data_main_humidity data))
       @ ''%'' @ nl
     @ glyph_wind @ '' **Wind Speed:** '' @ number_toString h (fl (data_wind_speed data)) @ '' ''
       @ windUnits units @ nl
     @ nl
     @ ''*Updated: '' @ now_toLocaleString h @ ''*''"

definition getCurrentWeather :: "host \<Rightarrow> json option \<Rightarrow> outcome" where
  "getCurrentWeather h args =
     (case GetCurrentWeatherSchema_parse args of
        Inl e \<Rightarrow> ([], Inl e)
      | Inr (location, units) \<Rightarrow>
          if OPENWEATHER_API_KEY h = [] then ([], Inl key_not_configured)
          else
            (case encodeURIComponent h location of
               Inl e \<Rightarrow> ([], Inl e)
             | Inr q \<Rightarrow>
                 (let url = weather_url h q units
                  in case fetch_weather h url of
                       Inl e \<Rightarrow> ([url], Inl e)
                     | Inr response \<Rightarrow>
                         if \<not> ok response then
                           (if status response = 404 then ([url], Inl (location_not_found location))
                            else ([url], Inl (Error (''Weather API error: ''
                                   @ show_nat (status response) @ '' '' @ statusText response))))
                         else
                           (case json response of
                              Inl e \<Rightarrow> ([url], Inl e)
                            | Inr data \<Rightarrow>
                                ([url], Inr (text_response (currentWeatherText h data units)))))))"

text \<open>The \<^verbatim>\<open>forEach\<close> that appends the lines of one day to \<^verbatim>\<open>forecastText\<close>.\<close>

definition forecastLines :: "host \<Rightarrow> string \<Rightarrow> string \<Rightarrow> nat \<times> daily_forecast \<Rightarrow> string" where
  "forecastLines h units forecastText p =
     (case p of (index, forecast) \<Rightarrow>
        forecastText
        @ (''**Day '' @ show_nat (index + 1) @ '' - '' @ date forecast @ ''**'' @ nl)
        @ (glyph_temperature @ '' **Temperature:** ''
           @ number_toString h (temperature_min forecast) @ unitsDisplay units @ '' - ''
           @ number_toString h (temperature_max forecast) @ unitsDisplay units @ nl)
        @ (glyph_condition @ '' **Condition:** '' @ description forecast @ nl)
        @ (glyph_humidity @ '' **Humidity:** '' @ number_toString h (humidity forecast) @ ''%'' @ nl)
        @ (glyph_wind @ '' **Wind Speed:** '' @ number_toString h (windSpeed forecast) @ '' ''
           @ windUnits units @ nl @ nl))"

definition forecastText ::
  "host \<Rightarrow> string \<Rightarrow> string \<Rightarrow> rat \<Rightarrow> string \<Rightarrow> daily_forecast list \<Rightarrow> string" where
  "forecastText h city country' days units forecasts =
     foldl (forecastLines h units)
       (''**'' @ number_toString h days @ ''-Day Weather Forecast for ''
        @ (city @ '', '' @ country') @ ''**'' @ nl @ nl)
       (enumerate 0 forecasts)"

definition getWeatherForecast :: "host \<Rightarrow> json option \<Rightarrow> outcome" where
  "getWeatherForecast h args =
     (case GetWeatherForecastSchema_parse args of
        Inl e \<Rightarrow> ([], Inl e)
      | Inr (location, days, units) \<Rightarrow>
          if OPENWEATHER_API_KEY h = [] then ([], Inl key_not_configured)
          else
            (case encodeURIComponent h location of
               Inl e \<Rightarrow> ([], Inl e)
             | Inr q \<Rightarrow>
                 (let url = forecast_url h q units
                  in case fetch_forecast h url of
                       Inl e \<Rightarrow> ([url], Inl e)
                     | Inr response \<Rightarrow>
                         if \<not> ok response then
                           (if status response = 404 then ([url], Inl (location_not_found location))
                            else ([url], Inl (Error (''Weather API error: ''
                                   @ show_nat (status response) @ '' '' @ statusText response))))
                         else
                           (case json response of
                              Inl e \<Rightarrow> ([url], Inl e)
                            | Inr data \<Rightarrow>
                                (case processForecastData h (data_list data) days of
                                   Inl e \<Rightarrow> ([url], Inl e)
                                 | Inr dailyForecasts \<Rightarrow>
                                     ([url], Inr (text_response (trim
                                        (forecastText h (data_city_name data)
                                           (data_city_country data) days units
                                           dailyForecasts)))))))))"

record LocationData =
  name :: string
  country :: string
  state :: "string option"
  lat :: rat
  lon :: rat

definition toLocationData :: "geo_item \<Rightarrow> LocationData" where
  "toLocationData item =
     \<lparr> name = item_name item, country = item_country item, state = item_state item,
       lat = fl (item_lat item), lon = fl (item_lon item) \<rparr>"

definition displayName :: "LocationData \<Rightarrow> string" where
  "displayName location =
     (case state location of
        None \<Rightarrow> name location @ '', '' @ country location
      | Some s \<Rightarrow>
          if s = [] then name location @ '', '' @ country location
          else name location @ '', '' @ s @ '', '' @ country location)"

definition locationLines :: "host \<Rightarrow> string \<Rightarrow> nat \<times> LocationData \<Rightarrow> string" where
  "locationLines h locationsText p =
     (case p of (index, location) \<Rightarrow>
        locationsText
        @ (show_nat (index + 1) @ ''. **'' @ displayName location @ ''**'' @ nl)
        @ (''   '' @ glyph_pin @ '' Coordinates: '' @ toFixed4 h (lat location) @ '', ''
           @ toFixed4 h (lon location) @ nl @ nl))"

definition locationsText :: "host \<Rightarrow> string \<Rightarrow> LocationData list \<Rightarrow> string" where
  "locationsText h query locations =
     foldl (locationLines h)
       (''**Found '' @ show_nat (length locations) @ '' location(s) for '' @ dq @ query @ dq
        @ '':**'' @ nl @ nl)
       (enumerate 0 locations)"

definition no_locations_found :: "string \<Rightarrow> string" where
  "no_locations_found query =
     ''No locations found for '' @ dq @ query @ dq @ ''. Please try a different search term.''"

definition searchLocations :: "host \<Rightarrow> json option \<Rightarrow> outcome" where
  "searchLocations h args =
     (case SearchLocationSchema_parse args of
        Inl e \<Rightarrow> ([], Inl e)
      | Inr (query, limit) \<Rightarrow>
          if OPENWEATHER_API_KEY h = [] then ([], Inl key_not_configured)
          else
            (case encodeURIComponent h query of
               Inl e \<Rightarrow> ([], Inl e)
             | Inr q \<Rightarrow>
                 (let url = geo_url h q limit
                  in case fetch_geo h url of
                       Inl e \<Rightarrow> ([url], Inl e)
                     | Inr response \<Rightarrow>
                         if \<not> ok response then
                           ([url], Inl (Error (''Geocoding API error: ''
                              @ show_nat (status response) @ '' '' @ statusText response)))
                         else
                           (case json response of
                              Inl e \<Rightarrow> ([url], Inl e)
                            | Inr data \<Rightarrow>
                                if length data = 0 then
                                  ([url], Inr (text_response (no_locations_found query)))
                                else
                                  ([url], Inr (text_response (trim
                                     (locationsText h query (map toLocationData data)))))))))"

subsection \<open>The dispatcher\<close>

text \<open>
  The handler of \<^verbatim>\<open>CallToolRequestSchema\<close>: the \<^verbatim>\<open>switch\<close> on the tool name inside
  \<^verbatim>\<open>try\<close>, and the \<^verbatim>\<open>catch\<close> that turns whatever was thrown into a response.
\<close>

definition errorMessage :: "host \<Rightarrow> thrown \<Rightarrow> string" where
  "errorMessage h error =
     (case error of
        Error m \<Rightarrow> m
      | ZodError is \<Rightarrow> zod_message h is
      | NonError \<Rightarrow> ''Unknown error occurred'')"

definition callTool_switch :: "host \<Rightarrow> string \<Rightarrow> json option \<Rightarrow> outcome" where
  "callTool_switch h tool args =
     (if tool = ''get_current_weather'' then getCurrentWeather h args
      else if tool = ''get_weather_forecast'' then getWeatherForecast h args
      else if tool = ''search_locations'' then searchLocations h args
      else ([], Inl (Error (''Unknown tool: '' @ tool))))"

definition callTool :: "host \<Rightarrow> string \<Rightarrow> json option \<Rightarrow> string list \<times> tool_response" where
  "callTool h tool args =
     (case callTool_switch h tool args of
        (requests, Inr response) \<Rightarrow> (requests, response)
      | (requests, Inl error) \<Rightarrow> (requests, text_response (''Error: '' @ errorMessage h error)))"

subsection \<open>Notions used in the statements\<close>

text \<open>The distinct elements of a list, in the order of their first occurrence.\<close>

fun first_occurrences :: "'a list \<Rightarrow> 'a list" where
  "first_occurrences [] = []"
| "first_occurrences (x # xs) = x # first_occurrences (filter (\<lambda>y. y \<noteq> x) xs)"

text \<open>
  The UTC calendar date of an entry: the date of day number \<open>\<lfloor>dt / 86400\<rfloor>\<close>, written
  \<^verbatim>\<open>YYYY-MM-DD\<close>. A timestamp up to 8.64e12 seconds from the epoch is a valid date.
\<close>

definition utc_date :: "forecast_item \<Rightarrow> string" where
  "utc_date item = iso_date (dt item div 86400)"

definition valid_time :: "forecast_item \<Rightarrow> bool" where
  "valid_time item = (\<bar>dt item\<bar> \<le> 8640000000000)"

text \<open>The upstream entries of one calendar date, in upstream order.\<close>

definition bucket :: "forecast_item list \<Rightarrow> string \<Rightarrow> forecast_item list" where
  "bucket items k = filter (\<lambda>i. utc_date i = k) items"

text \<open>The arithmetic mean, exact.\<close>

definition mean :: "rat list \<Rightarrow> rat" where
  "mean xs = sum_list xs / of_nat (length xs)"

text \<open>
  The arithmetic mean in double precision: the numbers are added from left to right,
  starting from 0, each sum rounded to a double, and the last sum is divided by the count,
  rounded again.
\<close>

definition double_sum :: "rat list \<Rightarrow> rat" where
  "double_sum xs = foldl (\<lambda>s x. fl (s + x)) 0 xs"

definition double_mean :: "rat list \<Rightarrow> rat" where
  "double_mean xs = fl (double_sum xs / of_nat (length xs))"

text \<open>
  Rounding to one decimal in double precision: ten times the number, rounded to the
  nearest integer (a tie upwards), divided by ten.
\<close>

definition round_tenth :: "rat \<Rightarrow> rat" where
  "round_tenth x = fl (of_int \<lfloor>fl (x * 10) + 1 / 2\<rfloor> / 10)"

text \<open>
  Among the elements of \<open>ds\<close> whose number of occurrences in \<open>ds\<close> is maximal, the one at
  the last position.
\<close>

definition last_most_frequent :: "'a list \<Rightarrow> 'a" where
  "last_most_frequent ds =
     last (filter (\<lambda>d. \<forall>d' \<in> set ds. count_list ds d' \<le> count_list ds d) ds)"

subsection \<open>Concrete inputs\<close>

text \<open>
  A host for the examples: a key is configured, \<^verbatim>\<open>encodeURIComponent\<close> leaves its argument
  as it is (the examples encode letters only), every \<^verbatim>\<open>fetch\<close> is rejected, and the locale
  prints a date as its ISO text. The examples print whole numbers that are not negative
  only, so the two number printers of this host are right on those and nowhere else.
\<close>

definition example_host :: host where
  "example_host =
     \<lparr> env_OPENWEATHER_API_KEY = Some ''k1'',
       encodeURIComponent = (\<lambda>s. Inr s),
       fetch_weather = (\<lambda>url. Inl (Error ''fetch failed'')),
       fetch_forecast = (\<lambda>url. Inl (Error ''fetch failed'')),
       fetch_geo = (\<lambda>url. Inl (Error ''fetch failed'')),
       number_toString = (\<lambda>r. show_int \<lfloor>r\<rfloor>),
       toFixed4 = (\<lambda>r. show_int \<lfloor>r\<rfloor> @ ''.0000''),
       toLocaleDateString = (\<lambda>d. d),
       now_toLocaleString = ''11/2/2026, 9:00:00 AM'',
       zod_message = (\<lambda>is. ''invalid arguments'') \<rparr>"

definition entry :: "int \<Rightarrow> rat \<Rightarrow> rat \<Rightarrow> rat \<Rightarrow> string \<Rightarrow> forecast_item" where
  "entry t temp hum wind descr =
     \<lparr> dt = t, main_temp = temp, main_humidity = hum, wind_speed = wind,
       weather0_description = descr \<rparr>"

text \<open>Three entries on three dates: 1970-01-02, 1970-01-01 and 1970-01-03, in this order.\<close>

definition three_days :: "forecast_item list" where
  "three_days =
     [entry 86400 10 50 3 ''rain'', entry 0 12 60 4 ''clear sky'', entry 172800 8 70 5 ''snow'']"

text \<open>Four entries of 1970-01-01 and one of the day after.\<close>

definition one_day :: "forecast_item list" where
  "one_day =
     [entry 0 (121 / 10) 50 (31 / 10) ''rain'',
      entry 10800 (98 / 10) 51 (42 / 10) ''clear sky'',
      entry 21600 (1526 / 100) 51 4 ''clear sky'',
      entry 32400 11 51 5 ''rain'',
      entry 86400 7 80 1 ''snow'']"

text \<open>An entry whose description is the empty string.\<close>

definition blank_day :: "forecast_item list" where
  "blank_day = [entry 0 10 50 3 []]"

text \<open>Two entries of one date with the wind speeds 0.6 and 0.7.\<close>

definition near_tie_day :: "forecast_item list" where
  "near_tie_day = [entry 0 10 50 (6 / 10) ''rain'', entry 10800 10 50 (7 / 10) ''rain'']"

text \<open>The upstream entries of the \<open>i\<close>-th distinct date, dates counted from 0 in the order
  of their first occurrence.\<close>

definition day_entries :: "forecast_item list \<Rightarrow> nat \<Rightarrow> forecast_item list" where
  "day_entries items i = bucket items (first_occurrences (map utc_date items) ! i)"

text \<open>
  The two lines of the place search's text for the upstream element \<open>item\<close> at position
  \<open>index\<close> (from 0): its number, its name with the state (when it has one that is not
  empty) and the country, and its coordinates, read as doubles, with four
  decimals.
\<close>

definition place_block :: "host \<Rightarrow> nat \<times> geo_item \<Rightarrow> string" where
  "place_block h p =
     (case p of (index, item) \<Rightarrow>
        show_nat (index + 1) @ ''. **''
        @ (case item_state item of
             None \<Rightarrow> item_name item @ '', '' @ item_country item
           | Some s \<Rightarrow>
               if s = [] then item_name item @ '', '' @ item_country item
               else item_name item @ '', '' @ s @ '', '' @ item_country item)
        @ ''**'' @ [CHR 0x0A]
        @ ''   '' @ [CHR 0xEF, CHR 0xA3, CHR 0xBF, CHR 0xC3, CHR 0xBC, CHR 0xC3, CHR 0xAC, CHR 0xC3, CHR 0xA7]
        @ '' Coordinates: '' @ toFixed4 h (fl (item_lat item)) @ '', ''
        @ toFixed4 h (fl (item_lon item))
        @ [CHR 0x0A, CHR 0x0A])"

text \<open>A text without the ASCII white space at its end.\<close>

definition without_trailing_space :: "string \<Rightarrow> string" where
  "without_trailing_space s =
     rev (dropWhile (\<lambda>c. c \<in> set [CHR 0x20, CHR 0x09, CHR 0x0A, CHR 0x0B, CHR 0x0C, CHR 0x0D])
            (rev s))"

text \<open>A response of the provider, for the examples.\<close>

definition http_reply :: "bool \<Rightarrow> nat \<Rightarrow> string \<Rightarrow> thrown + 'a \<Rightarrow> 'a http_response" where
  "http_reply k st phrase body = \<lparr> ok = k, status = st, statusText = phrase, json = body \<rparr>"



text \<open>The example host with a geocoding endpoint that answers 200 with the given array.\<close>

definition geo_host :: "geo_item list \<Rightarrow> host" where
  "geo_host body =
     example_host \<lparr> fetch_geo := (\<lambda>url. Inr (http_reply True 200 ''OK'' (Inr body))) \<rparr>"

definition london_args :: "json option" where
  "london_args =
     Some (JObj [(''location'', JStr ''London''), (''query'', JStr ''London''), (''limit'', JNum 1)])"

definition two_places :: "geo_item list" where
  "two_places =
     [\<lparr> item_name = ''London'', item_country = ''GB'', item_state = Some ''England'',
         item_lat = 51, item_lon = 0 \<rparr>,
      \<lparr> item_name = ''London'', item_country = ''CA'', item_state = None,
         item_lat = 42, item_lon = 81 \<rparr>]"

text \<open>The example host with a forecast endpoint that answers 200 with the entries of
  \<open>three_days\<close> for London, GB.\<close>

definition forecast_host :: host where
  "forecast_host = example_host
     \<lparr> fetch_forecast := (\<lambda>url. Inr (http_reply True 200 ''OK''
          (Inr \<lparr> data_list = three_days, data_city_name = ''London'',
                 data_city_country = ''GB'' \<rparr>))) \<rparr>"

text \<open>The example host with a weather endpoint that answers 200 with 11.96 degrees, light
  rain, 81 percent and 4 m/s for London, GB.\<close>

definition london_weather :: weather_payload where
  "london_weather =
     \<lparr> data_name = ''London'', data_sys_country = ''GB'', data_main_temp = 1196 / 100,
       data_weather0_description = ''light rain'', data_main_humidity = 81,
       data_wind_speed = 4 \<rparr>"

definition weather_host :: host where
  "weather_host = example_host
     \<lparr> fetch_weather := (\<lambda>url. Inr (http_reply True 200 ''OK''
          (Inr london_weather))) \<rparr>"

section \<open>Auxiliary lemmas\<close>

subsection \<open>The date of an entry\<close>

lemma digit_in: "digit n \<in> set ''0123456789''"
  unfolding digit_def by (rule nth_mem) simp

lemma show_int_digits: "set (show_int n) \<subseteq> set ''0123456789''"
proof (induction n rule: show_int.induct)
  case (1 n)
  show ?case
  proof (cases "n < 10")
    case True
    then show ?thesis using digit_in[of n] by (subst show_int.simps) simp
  next
    case False
    then show ?thesis using 1 digit_in[of "n mod 10"] by (subst show_int.simps) simp
  qed
qed

lemma iso_date_examples:
  "iso_date 0 = ''1970-01-01''"
  "iso_date (-1) = ''1969-12-31''"
  "iso_date 11016 = ''2000-02-29''"
  "iso_date 20394 = ''2025-11-02''"
  "iso_date (-719528) = ''0000-01-01''"
  "iso_date (-719529) = ''-000001-12-31''"
  "iso_date 2932897 = ''+010000-01-01''"
  by (code_simp, code_simp, code_simp, code_simp, code_simp, code_simp, code_simp)

lemma toISOString_examples:
  "toISOString 1762074000123 = Inr ''2025-11-02T09:00:00.123Z''"
  "toISOString (-1) = Inr ''1969-12-31T23:59:59.999Z''"
  "toISOString 8640000000000000 = Inr ''+275760-09-13T00:00:00.000Z''"
  "toISOString 8640000000000001 = Inl (Error ''Invalid time value'')"
  by (code_simp, code_simp, code_simp, code_simp)

lemma pad_digits: "set (pad w (show_int n)) \<subseteq> set ''0123456789''"
  using show_int_digits[of n] unfolding pad_def by auto

lemma iso_date_no_T: "CHR ''T'' \<notin> set (iso_date n)"
proof -
  obtain y m d where ymd: "ymd_of_day n = (y, m, d)" by (cases "ymd_of_day n")
  have a: "CHR ''T'' \<notin> set (pad w (show_int k))" for w k
    using pad_digits[of w k] by auto
  have "CHR ''T'' \<notin> set (iso_year y)"
    unfolding iso_year_def using a by auto
  then show ?thesis unfolding iso_date_def ymd using a by simp
qed

lemma split_T_0_iso: "split_T_0 (iso_date n @ CHR ''T'' # rest) = iso_date n"
proof -
  have "takeWhile (\<lambda>c. c \<noteq> CHR ''T'') (iso_date n @ CHR ''T'' # rest)
        = iso_date n @ takeWhile (\<lambda>c. c \<noteq> CHR ''T'') (CHR ''T'' # rest)"
    by (rule takeWhile_append2) (use iso_date_no_T[of n] in auto)
  then show ?thesis unfolding split_T_0_def by simp
qed

lemma item_date_eq:
  "item_date item = (if valid_time item then Inr (utc_date item) else Inl (Error ''Invalid time value''))"
proof -
  have d: "dt item * 1000 div msPerDay = dt item div 86400"
    unfolding msPerDay_def by simp
  have v: "(\<bar>dt item * 1000\<bar> > 8640000000000000) = (\<not> valid_time item)"
    unfolding valid_time_def by auto
  show ?thesis
    unfolding item_date_def toISOString_def utc_date_def v d
    by (simp add: split_T_0_iso)
qed


subsection \<open>Grouping by date and the loop over the days\<close>

lemma map_set_absent: "k \<notin> set (map fst m) \<Longrightarrow> map_set m k v = m @ [(k, v)]"
  by (induction m) auto

lemma map_get_push_new:
  "k \<notin> set (map fst m) \<Longrightarrow> map_get_push (m @ [(k, v)]) k item = m @ [(k, v @ [item])]"
  by (induction m) auto

lemma map_get_push_old:
  "distinct (map fst m) \<Longrightarrow>
   map_get_push m k item = map (\<lambda>(k', v). (k', if k' = k then v @ [item] else v)) m"
proof (induction m)
  case Nil
  then show ?case by simp
next
  case (Cons p m)
  obtain k' v' where p: "p = (k', v')" by (cases p)
  show ?case
  proof (cases "k' = k")
    case True
    with Cons.prems p have "k \<notin> set (map fst m)" by simp
    then have "map (\<lambda>(k', v). (k', if k' = k then v @ [item] else v)) m = m"
      by (induction m) auto
    with True p show ?thesis by simp
  next
    case False
    with Cons p show ?thesis by simp
  qed
qed

lemma set_first_occurrences: "set (first_occurrences xs) = set xs"
  by (induction xs rule: first_occurrences.induct) auto

lemma distinct_first_occurrences: "distinct (first_occurrences xs)"
  by (induction xs rule: first_occurrences.induct) (auto simp: set_first_occurrences)

lemma length_first_occurrences: "length (first_occurrences xs) = card (set xs)"
  using distinct_card[OF distinct_first_occurrences, of xs] by (simp add: set_first_occurrences)

lemma bucket_Cons_other:
  "utc_date i \<notin> set ks \<Longrightarrow>
   map (\<lambda>k. (k, bucket items k)) ks = map (\<lambda>k. (k, bucket (i # items) k)) ks"
  by (induction ks) (auto simp: bucket_def)

lemma group_by_date_closed:
  "\<forall>i\<in>set items. valid_time i \<Longrightarrow> distinct (map fst m) \<Longrightarrow>
   group_by_date items m =
     Inr (map (\<lambda>(k, v). (k, v @ bucket items k)) m
          @ map (\<lambda>k. (k, bucket items k))
              (first_occurrences (filter (\<lambda>k. k \<notin> set (map fst m)) (map utc_date items))))"
proof (induction items arbitrary: m)
  case Nil
  then show ?case by (simp add: bucket_def)
next
  case (Cons i items)
  let ?k = "utc_date i"
  have d: "item_date i = Inr ?k" using Cons.prems(1) by (simp add: item_date_eq)
  show ?case
  proof (cases "?k \<in> set (map fst m)")
    case True
    let ?m1 = "map (\<lambda>(k', v). (k', if k' = ?k then v @ [i] else v)) m"
    have keys: "map fst ?m1 = map fst m" by (induction m) auto
    have step: "group_by_date (i # items) m = group_by_date items ?m1"
      using True d Cons.prems(2) by (simp add: map_has_def map_get_push_old)
    have ih: "group_by_date items ?m1 =
       Inr (map (\<lambda>(k, v). (k, v @ bucket items k)) ?m1
          @ map (\<lambda>k. (k, bucket items k))
              (first_occurrences (filter (\<lambda>k. k \<notin> set (map fst ?m1)) (map utc_date items))))"
    proof (rule Cons.IH)
      show "\<forall>i\<in>set items. valid_time i" using Cons.prems(1) by simp
      show "distinct (map fst ?m1)" unfolding keys by (rule Cons.prems(2))
    qed
    have a: "map (\<lambda>(k, v). (k, v @ bucket items k)) ?m1
           = map (\<lambda>(k, v). (k, v @ bucket (i # items) k)) m"
      by (induction m) (auto simp: bucket_def)
    have c: "?k \<notin> set (first_occurrences (filter (\<lambda>k. k \<notin> set (map fst m)) (map utc_date items)))"
      using True by (simp add: set_first_occurrences)
    have fo: "filter (\<lambda>k. k \<notin> set (map fst m)) (map utc_date (i # items))
            = filter (\<lambda>k. k \<notin> set (map fst m)) (map utc_date items)"
      using True by simp
    show ?thesis
      unfolding step ih keys a fo bucket_Cons_other[where items = items, OF c] by (rule refl)
  next
    case False
    let ?m1 = "m @ [(?k, [i])]"
    have step: "group_by_date (i # items) m = group_by_date items ?m1"
      using False d by (simp add: map_has_def map_set_absent map_get_push_new)
    have dist: "distinct (map fst ?m1)" using False Cons.prems(2) by simp
    have ih: "group_by_date items ?m1 =
       Inr (map (\<lambda>(k, v). (k, v @ bucket items k)) ?m1
          @ map (\<lambda>k. (k, bucket items k))
              (first_occurrences (filter (\<lambda>k. k \<notin> set (map fst ?m1)) (map utc_date items))))"
    proof (rule Cons.IH)
      show "\<forall>i\<in>set items. valid_time i" using Cons.prems(1) by simp
      show "distinct (map fst ?m1)" by (rule dist)
    qed
    have a: "map (\<lambda>(k, v). (k, v @ bucket items k)) m
           = map (\<lambda>(k, v). (k, v @ bucket (i # items) k)) m"
      using False by (induction m) (auto simp: bucket_def)
    have f: "filter (\<lambda>k. k \<notin> set (map fst ?m1)) (map utc_date items)
           = filter (\<lambda>y. y \<noteq> ?k) (filter (\<lambda>k. k \<notin> set (map fst m)) (map utc_date items))"
      by (induction items) auto
    have c: "?k \<notin> set (first_occurrences (filter (\<lambda>k. k \<notin> set (map fst ?m1)) (map utc_date items)))"
      by (simp add: set_first_occurrences)
    have fo: "first_occurrences (filter (\<lambda>k. k \<notin> set (map fst m)) (map utc_date (i # items)))
            = ?k # first_occurrences (filter (\<lambda>k. k \<notin> set (map fst ?m1)) (map utc_date items))"
    proof -
      have hd: "filter (\<lambda>k. k \<notin> set (map fst m)) (map utc_date (i # items))
              = ?k # filter (\<lambda>k. k \<notin> set (map fst m)) (map utc_date items)"
        using False by simp
      show ?thesis unfolding hd first_occurrences.simps f by (rule refl)
    qed
    have bk: "bucket (i # items) ?k = [i] @ bucket items ?k"
      by (simp add: bucket_def)
    have m1: "map (\<lambda>(k, v). (k, v @ bucket items k)) ?m1
            = map (\<lambda>(k, v). (k, v @ bucket (i # items) k)) m @ [(?k, bucket (i # items) ?k)]"
      using a bk by simp
    show ?thesis
      unfolding step ih fo m1 bucket_Cons_other[where items = items, OF c] by simp
  qed
qed

lemma group_by_date_invalid:
  "\<exists>i\<in>set items. \<not> valid_time i \<Longrightarrow> group_by_date items m = Inl (Error ''Invalid time value'')"
  by (induction items arbitrary: m) (auto simp: item_date_eq)

lemma group_by_date_start:
  "group_by_date items [] =
     (if \<forall>i\<in>set items. valid_time i
      then Inr (map (\<lambda>k. (k, bucket items k)) (first_occurrences (map utc_date items)))
      else Inl (Error ''Invalid time value''))"
  using group_by_date_closed[of items "[]"] group_by_date_invalid[of items "[]"]
  by (cases "\<forall>i\<in>set items. valid_time i") simp_all

lemma ceiling_step:
  fixes days :: rat
  assumes a: "\<not> days \<le> of_nat count"
  shows "nat \<lceil>days - of_nat count\<rceil> = Suc (nat \<lceil>days - of_nat (count + 1)\<rceil>)"
proof -
  define c where "c = \<lceil>days - of_nat count\<rceil>"
  have p: "0 < c" unfolding c_def using a by (simp add: less_ceiling_iff)
  have "days - of_nat (count + 1) = (days - of_nat count) - 1" by simp
  then have e: "\<lceil>days - of_nat (count + 1)\<rceil> = c - 1"
    unfolding c_def by (simp only: ceiling_diff_one)
  have "nat c = Suc (nat (c - 1))" using p by simp
  then show ?thesis unfolding e unfolding c_def .
qed

lemma daily_loop_closed:
  "daily_loop h days gs count acc =
     acc @ map (\<lambda>(d, fs). day_forecast h d fs) (take (nat \<lceil>days - of_nat count\<rceil>) gs)"
proof (induction gs arbitrary: count acc)
  case Nil
  then show ?case by simp
next
  case (Cons g gs)
  obtain d fs where g: "g = (d, fs)" by (cases g)
  show ?case
  proof (cases "days \<le> of_nat count")
    case True
    then have "nat \<lceil>days - of_nat count\<rceil> = 0" by (simp add: ceiling_le_zero)
    with True g show ?thesis by simp
  next
    case False
    from ceiling_step[OF False] False g Cons.IH[of "count + 1"] show ?thesis by simp
  qed
qed

lemma processForecastData_closed:
  "processForecastData h items days =
     (if \<forall>i\<in>set items. valid_time i
      then Inr (map (\<lambda>k. day_forecast h k (bucket items k))
                  (take (nat \<lceil>days\<rceil>) (first_occurrences (map utc_date items))))
      else Inl (Error ''Invalid time value''))"
  unfolding processForecastData_def group_by_date_start
  by (simp add: daily_loop_closed take_map o_def)

lemma bucket_not_Nil: "k \<in> set (map utc_date items) \<Longrightarrow> bucket items k \<noteq> []"
  unfolding bucket_def by (auto simp: filter_empty_conv)

lemma processForecastData_Inr:
  assumes "processForecastData h items days = Inr r"
  shows "r = map (\<lambda>k. day_forecast h k (bucket items k))
               (take (nat \<lceil>days\<rceil>) (first_occurrences (map utc_date items)))"
  using assms unfolding processForecastData_closed by (simp split: if_splits)

lemma processForecastData_nth:
  assumes "processForecastData h items days = Inr r" and "i < length r"
  shows "r ! i = day_forecast h (first_occurrences (map utc_date items) ! i) (day_entries items i)"
    and "day_entries items i \<noteq> []"
proof -
  let ?ks = "first_occurrences (map utc_date items)"
  note r = processForecastData_Inr[OF assms(1)]
  have i: "i < length (take (nat \<lceil>days\<rceil>) ?ks)" using assms(2) unfolding r by simp
  then have i': "i < length ?ks" by simp
  show "r ! i = day_forecast h (?ks ! i) (day_entries items i)"
    unfolding day_entries_def using i unfolding r by simp
  have "?ks ! i \<in> set ?ks" using i' by (rule nth_mem)
  then have "?ks ! i \<in> set (map utc_date items)" unfolding set_first_occurrences .
  then show "day_entries items i \<noteq> []" unfolding day_entries_def by (rule bucket_not_Nil)
qed


lemma processForecastData_returns:
  "(\<exists>r. processForecastData h items days = Inr r) = (\<forall>i \<in> set items. valid_time i)"
  unfolding processForecastData_closed by simp

lemma group_by_date_nonempty:
  assumes "group_by_date items [] = Inr m" and "(k, v) \<in> set m"
  shows "v \<noteq> []"
proof -
  have m: "m = map (\<lambda>k. (k, bucket items k)) (first_occurrences (map utc_date items))"
    using assms(1) unfolding group_by_date_start by (simp split: if_splits)
  from assms(2) have "k \<in> set (map utc_date items)" and "v = bucket items k"
    unfolding m by (auto simp: set_first_occurrences)
  then show ?thesis using bucket_not_Nil by simp
qed

subsection \<open>Rounding to a double\<close>

lemma rne_floor_le: "\<lfloor>x\<rfloor> \<le> rne x"
  unfolding rne_def Let_def by simp

lemma rne_le_ceiling: "rne x \<le> \<lceil>x\<rceil>"
  unfolding rne_def Let_def by (auto simp: ceiling_altdef)

lemma rne_of_int [simp]: "rne (of_int n) = n"
  unfolding rne_def Let_def by simp

lemma rne_nearest: "\<bar>of_int (rne x) - x\<bar> \<le> 1 / 2"
proof -
  define f where "f = \<lfloor>x\<rfloor>"
  define r where "r = x - of_int f"
  define q where "q = rne x"
  have r: "0 \<le> r" "r < 1" unfolding r_def f_def using floor_correct[of x] by simp_all
  have x: "x = of_int f + r" unfolding r_def by simp
  have q: "q = (if r < 1 / 2 then f else if 1 / 2 < r then f + 1
                else if even f then f else f + 1)"
    unfolding q_def rne_def Let_def f_def[symmetric] r_def[symmetric] ..
  have "\<bar>of_int q - x\<bar> \<le> 1 / 2"
  proof (cases "r < 1 / 2")
    case True
    then have "q = f" unfolding q by simp
    then show ?thesis using True r unfolding x by simp
  next
    case False
    show ?thesis
    proof (cases "1 / 2 < r")
      case True
      then have "q = f + 1" unfolding q by simp
      then show ?thesis using True r unfolding x by simp
    next
      case nt: False
      with False have h: "r = 1 / 2" by simp
      have "q = f \<or> q = f + 1" unfolding q by simp
      then show ?thesis unfolding x h by auto
    qed
  qed
  then show ?thesis unfolding q_def .
qed

lemma rne_mono: "x \<le> y \<Longrightarrow> rne x \<le> rne y"
proof -
  assume xy: "x \<le> y"
  then have f: "\<lfloor>x\<rfloor> \<le> \<lfloor>y\<rfloor>" by (rule floor_mono)
  show ?thesis
  proof (cases "\<lfloor>x\<rfloor> = \<lfloor>y\<rfloor>")
    case True
    then have "x - of_int \<lfloor>x\<rfloor> \<le> y - of_int \<lfloor>y\<rfloor>" using xy by simp
    then show ?thesis unfolding rne_def Let_def True by auto
  next
    case False
    then have "\<lfloor>x\<rfloor> + 1 \<le> \<lfloor>y\<rfloor>" using f by simp
    moreover have "rne x \<le> \<lfloor>x\<rfloor> + 1" unfolding rne_def Let_def by simp
    ultimately show ?thesis using rne_floor_le[of y] by linarith
  qed
qed

lemma rne_minus: "rne (- x) = - rne x"
proof (cases "x = of_int \<lfloor>x\<rfloor>")
  case True
  then obtain n where "x = of_int n" ..
  then show ?thesis by (simp flip: of_int_minus)
next
  case False
  define f where "f = \<lfloor>x\<rfloor>"
  define r where "r = x - of_int f"
  have "\<lceil>x\<rceil> = f + 1" using False unfolding f_def by (simp add: ceiling_altdef)
  then have fm: "\<lfloor>- x\<rfloor> = - f - 1" unfolding ceiling_def by linarith
  have r: "0 < r" "r < 1"
    unfolding r_def f_def using floor_correct[of x] False
    by (simp_all add: order.strict_iff_order)
  have rm: "- x - of_int (- f - 1) = 1 - r" unfolding r_def by simp
  have e: "even (- f - 1) = odd f" by simp
  have A: "rne x = (if r < 1 / 2 then f else if 1 / 2 < r then f + 1
                    else if even f then f else f + 1)"
    unfolding rne_def Let_def f_def[symmetric] r_def[symmetric] ..
  have B: "rne (- x) = (if 1 - r < 1 / 2 then - f - 1 else if 1 / 2 < 1 - r then - f - 1 + 1
                    else if odd f then - f - 1 else - f - 1 + 1)"
    unfolding rne_def Let_def fm rm e ..
  consider "r < 1 / 2" | "1 / 2 < r" | "r = 1 / 2" by linarith
  then show ?thesis
  proof cases
    case 1
    then show ?thesis unfolding A B by simp
  next
    case 2
    then show ?thesis unfolding A B by simp
  next
    case 3
    then show ?thesis unfolding A B by simp
  qed
qed

lemma powi_pos: "0 \<le> b \<Longrightarrow> (2::rat) powi b = 2 ^ nat b"
  by (simp add: power_int_def)

lemma powi_neg: "1 \<le> b \<Longrightarrow> (2::rat) powi (- b) = 1 / 2 ^ nat b"
proof -
  assume b: "1 \<le> b"
  have "(2::rat) powi (- b) = inverse (2 powi b)" by (rule power_int_minus)
  also have "(2::rat) powi b = 2 ^ nat b" using b by (simp add: powi_pos)
  finally show ?thesis by (simp add: inverse_eq_divide)
qed

lemma powi_neg1: "1 \<le> b \<Longrightarrow> (2::rat) powi (- b + 1) = 1 / 2 ^ nat (b - 1)"
proof -
  assume b: "1 \<le> b"
  have "(2::rat) powi (- b + 1) = 2 powi (- (b - 1))" by simp
  also have "\<dots> = inverse (2 powi (b - 1))" by (rule power_int_minus)
  also have "(2::rat) powi (b - 1) = 2 ^ nat (b - 1)" using b by (simp add: powi_pos)
  finally show ?thesis by (simp add: inverse_eq_divide)
qed

lemma inv_le: "0 < (y::rat) \<Longrightarrow> y \<le> c \<Longrightarrow> 1 / c \<le> 1 / y"
  by (rule frac_le) simp_all

lemma inv_less: "0 < (c::rat) \<Longrightarrow> c < y \<Longrightarrow> 1 / y < 1 / c"
  by (rule frac_less2) simp_all


lemma expo_bounds:
  assumes "x \<noteq> 0"
  shows "2 powi (expo x) \<le> \<bar>x\<bar>" and "\<bar>x\<bar> < 2 powi (expo x + 1)"
proof -
  have "2 powi (expo x) \<le> \<bar>x\<bar> \<and> \<bar>x\<bar> < 2 powi (expo x + 1)"
  proof (cases "1 \<le> \<bar>x\<bar>")
    case True
    define n where "n = \<lfloor>\<bar>x\<bar>\<rfloor>"
    have n: "0 < n" using True unfolding n_def by simp
    define b where "b = bitlen n"
    have b1: "1 \<le> b" using n unfolding b_def by (auto simp: bitlen_alt_def)
    from bitlen_bounds[OF n] have lo: "2 ^ nat (b - 1) \<le> n" and hi: "n < 2 ^ nat b"
      unfolding b_def by simp_all
    have e: "expo x = b - 1" using True unfolding expo_def b_def n_def by simp
    have "(2::rat) powi (b - 1) = 2 ^ nat (b - 1)" using b1 by (simp add: powi_pos)
    also have "\<dots> = of_int (2 ^ nat (b - 1))" by simp
    also have "\<dots> \<le> of_int n" using lo by (simp only: of_int_le_iff)
    also have "\<dots> \<le> \<bar>x\<bar>" unfolding n_def by simp
    finally have A: "2 powi (expo x) \<le> \<bar>x\<bar>" unfolding e .
    have "n + 1 \<le> 2 ^ nat b" using hi by simp
    then have "(of_int (n + 1) :: rat) \<le> of_int (2 ^ nat b)" by (simp only: of_int_le_iff)
    moreover have "\<bar>x\<bar> < of_int (n + 1)"
      unfolding n_def using floor_correct[of "\<bar>x\<bar>"] by simp
    ultimately have "\<bar>x\<bar> < of_int (2 ^ nat b)" by (rule less_le_trans[rotated])
    also have "(of_int (2 ^ nat b) :: rat) = 2 ^ nat b" by simp
    also have "(2::rat) ^ nat b = 2 powi b" using b1 by (simp add: powi_pos)
    finally have B: "\<bar>x\<bar> < 2 powi (expo x + 1)" unfolding e by simp
    from A B show ?thesis ..
  next
    case False
    define y where "y = 1 / \<bar>x\<bar>"
    have y1: "1 < y" using False assms unfolding y_def by simp
    have ypos: "0 < y" using y1 by simp
    define m where "m = \<lceil>y\<rceil> - 1"
    have m: "0 < m" using y1 unfolding m_def by (simp add: less_ceiling_iff)
    define b where "b = bitlen m"
    have b1: "1 \<le> b" using m unfolding b_def by (auto simp: bitlen_alt_def)
    from bitlen_bounds[OF m] have lo: "2 ^ nat (b - 1) \<le> m" and hi: "m < 2 ^ nat b"
      unfolding b_def by simp_all
    have e: "expo x = - b" using False unfolding expo_def b_def m_def y_def by simp
    have my: "of_int m < y" unfolding m_def using ceiling_correct[of y] by simp
    have ym: "y \<le> of_int (m + 1)" unfolding m_def by simp
    have "(2::rat) ^ nat (b - 1) = of_int (2 ^ nat (b - 1))" by simp
    also have "\<dots> \<le> of_int m" using lo by (simp only: of_int_le_iff)
    also have "\<dots> < y" by (rule my)
    finally have ylo: "2 ^ nat (b - 1) < y" .
    have "m + 1 \<le> 2 ^ nat b" using hi by simp
    then have "(of_int (m + 1) :: rat) \<le> of_int (2 ^ nat b)" by (simp only: of_int_le_iff)
    with ym have "y \<le> of_int (2 ^ nat b)" by (rule order_trans)
    also have "(of_int (2 ^ nat b) :: rat) = 2 ^ nat b" by simp
    finally have yhi: "y \<le> 2 ^ nat b" .
    have x: "\<bar>x\<bar> = 1 / y" unfolding y_def by simp
    have "(2::rat) powi (- b) = 1 / 2 ^ nat b" by (rule powi_neg[OF b1])
    also have "\<dots> \<le> 1 / y" by (rule inv_le[OF ypos yhi])
    finally have A: "2 powi (expo x) \<le> \<bar>x\<bar>" unfolding e x .
    have "1 / y < 1 / 2 ^ nat (b - 1)" by (rule inv_less[OF _ ylo]) simp
    also have "1 / 2 ^ nat (b - 1) = (2::rat) powi (- b + 1)" by (rule powi_neg1[OF b1, symmetric])
    finally have B: "\<bar>x\<bar> < 2 powi (expo x + 1)" unfolding e x .
    from A B show ?thesis ..
  qed
  then show "2 powi (expo x) \<le> \<bar>x\<bar>" and "\<bar>x\<bar> < 2 powi (expo x + 1)" by simp_all
qed

lemma expo_minus: "expo (- x) = expo x"
  unfolding expo_def by simp

lemma fl_0 [simp]: "fl 0 = 0"
  unfolding fl_def by simp

lemma fl_minus: "fl (- x) = - fl x"
  unfolding fl_def Let_def expo_minus by (simp add: rne_minus)

text \<open>The mantissa of a positive number lies between \<open>2^52\<close> and \<open>2^53\<close>.\<close>

lemma mantissa_bounds:
  assumes "0 < x"
  shows "2 ^ 52 \<le> x / 2 powi (expo x - 52)" and "x / 2 powi (expo x - 52) < 2 ^ 53"
proof -
  have x0: "x \<noteq> 0" using assms by simp
  have p: "(0::rat) < 2 powi (expo x - 52)" by simp
  have a: "(2::rat) powi (expo x) = 2 powi (expo x - 52) * 2 ^ 52"
  proof -
    have "(2::rat) powi (expo x) = 2 powi ((expo x - 52) + 52)" by simp
    also have "\<dots> = 2 powi (expo x - 52) * 2 powi 52" by (rule power_int_add) simp
    finally show ?thesis by (simp add: powi_pos)
  qed
  have b: "(2::rat) powi (expo x + 1) = 2 powi (expo x - 52) * 2 ^ 53"
  proof -
    have e: "expo x + 1 = (expo x - 52) + 53" by simp
    have "(2::rat) powi ((expo x - 52) + 53) = 2 powi (expo x - 52) * 2 powi 53"
      by (rule power_int_add) simp
    then show ?thesis unfolding e[symmetric] by (simp add: powi_pos)
  qed
  from expo_bounds[OF x0] assms
  have "2 powi (expo x - 52) * 2 ^ 52 \<le> x" and "x < 2 powi (expo x - 52) * 2 ^ 53"
    unfolding a b by simp_all
  then show "2 ^ 52 \<le> x / 2 powi (expo x - 52)" and "x / 2 powi (expo x - 52) < 2 ^ 53"
    using p by (simp_all add: pos_le_divide_eq pos_divide_less_eq mult.commute)
qed

lemma fl_pos_bounds:
  assumes "0 < x"
  shows "2 powi (expo x) \<le> fl x" and "fl x \<le> 2 powi (expo x + 1)"
proof -
  define k where "k = expo x - 52"
  define z where "z = x / 2 powi k"
  have p: "(0::rat) < 2 powi k" by simp
  have f: "fl x = 2 powi k * of_int (rne z)"
    using assms unfolding fl_def Let_def k_def z_def by simp
  from mantissa_bounds[OF assms] have z: "2 ^ 52 \<le> z" "z < 2 ^ 53" unfolding z_def k_def .
  have "(2::int) ^ 52 \<le> \<lfloor>z\<rfloor>" using z(1) by (simp add: le_floor_iff)
  then have lo: "(2::int) ^ 52 \<le> rne z" using rne_floor_le[of z] by linarith
  have "\<lceil>z\<rceil> \<le> (2::int) ^ 53" using z(2) by (simp add: ceiling_le_iff)
  then have hi: "rne z \<le> (2::int) ^ 53" using rne_le_ceiling[of z] by linarith
  have lo': "(2::rat) ^ 52 \<le> of_int (rne z)"
  proof -
    have "(of_int ((2::int) ^ 52) :: rat) \<le> of_int (rne z)" using lo by (simp only: of_int_le_iff)
    then show ?thesis by simp
  qed
  have hi': "(of_int (rne z) :: rat) \<le> 2 ^ 53"
  proof -
    have "(of_int (rne z) :: rat) \<le> of_int ((2::int) ^ 53)" using hi by (simp only: of_int_le_iff)
    then show ?thesis by simp
  qed
  have a: "(2::rat) powi (expo x) = 2 powi k * 2 ^ 52"
  proof -
    have "(2::rat) powi (expo x) = 2 powi (k + 52)" unfolding k_def by simp
    also have "\<dots> = 2 powi k * 2 powi 52" by (rule power_int_add) simp
    finally show ?thesis by (simp add: powi_pos)
  qed
  have b: "(2::rat) powi (expo x + 1) = 2 powi k * 2 ^ 53"
  proof -
    have e: "expo x + 1 = k + 53" unfolding k_def by simp
    have "(2::rat) powi (k + 53) = 2 powi k * 2 powi 53"
      by (rule power_int_add) simp
    then show ?thesis unfolding e[symmetric] by (simp add: powi_pos)
  qed
  show "2 powi (expo x) \<le> fl x" unfolding a f using lo' p by (intro mult_left_mono) simp_all
  show "fl x \<le> 2 powi (expo x + 1)" unfolding b f using hi' p by (intro mult_left_mono) simp_all
qed

lemma fl_pos: "0 < x \<Longrightarrow> 0 < fl x"
proof -
  assume "0 < x"
  then have "2 powi (expo x) \<le> fl x" by (rule fl_pos_bounds(1))
  moreover have "(0::rat) < 2 powi (expo x)" by simp
  ultimately show ?thesis by (rule less_le_trans[rotated])
qed

lemma expo_mono:
  assumes "0 < x" and "x \<le> y"
  shows "expo x \<le> expo y"
proof (rule ccontr)
  assume "\<not> expo x \<le> expo y"
  then have "expo y + 1 \<le> expo x" by simp
  then have "(2::rat) powi (expo y + 1) \<le> 2 powi (expo x)" by (intro power_int_increasing) simp_all
  moreover have "2 powi (expo x) \<le> x" using expo_bounds(1)[of x] assms by simp
  moreover have "y < 2 powi (expo y + 1)" using expo_bounds(2)[of y] assms by simp
  ultimately show False using assms(2) by linarith
qed

lemma fl_mono_pos:
  assumes "0 < x" and "x \<le> y"
  shows "fl x \<le> fl y"
proof (cases "expo x = expo y")
  case True
  have y: "0 < y" using assms by simp
  have p: "(0::rat) < 2 powi (expo y - 52)" by simp
  have "x / 2 powi (expo y - 52) \<le> y / 2 powi (expo y - 52)"
    using assms(2) p by (simp add: divide_right_mono)
  then have "rne (x / 2 powi (expo y - 52)) \<le> rne (y / 2 powi (expo y - 52))" by (rule rne_mono)
  then have "(of_int (rne (x / 2 powi (expo y - 52))) :: rat) \<le> of_int (rne (y / 2 powi (expo y - 52)))"
    by (simp only: of_int_le_iff)
  then show ?thesis
    using assms(1) y p unfolding fl_def Let_def True by (simp add: mult_left_mono)
next
  case False
  have y: "0 < y" using assms by simp
  from False expo_mono[OF assms] have "expo x + 1 \<le> expo y" by simp
  then have "(2::rat) powi (expo x + 1) \<le> 2 powi (expo y)" by (intro power_int_increasing) simp_all
  with fl_pos_bounds(2)[OF assms(1)] fl_pos_bounds(1)[OF y] show ?thesis by linarith
qed

lemma fl_mono: "x \<le> y \<Longrightarrow> fl x \<le> fl y"
proof -
  assume xy: "x \<le> y"
  consider "0 < x" | "x = 0" | "x < 0" "0 \<le> y" | "x < 0" "y < 0" by linarith
  then show ?thesis
  proof cases
    case 1
    then show ?thesis using xy by (rule fl_mono_pos)
  next
    case 2
    then show ?thesis using xy fl_pos[of y] by (cases "y = 0") (simp_all add: less_le)
  next
    case 3
    have "fl x < 0" using fl_pos[of "- x"] 3(1) by (simp add: fl_minus)
    moreover have "0 \<le> fl y" using fl_pos[of y] 3(2) by (cases "y = 0") (simp_all add: less_le)
    ultimately show ?thesis by simp
  next
    case 4
    have "fl (- y) \<le> fl (- x)" using 4 xy by (intro fl_mono_pos) simp_all
    then show ?thesis by (simp add: fl_minus)
  qed
qed

text \<open>The relative error of rounding is at most \<open>2^-53\<close>.\<close>

lemma fl_error: "\<bar>fl x - x\<bar> \<le> \<bar>x\<bar> / 2 ^ 53"
proof -
  have pos: "\<bar>fl x - x\<bar> \<le> x / 2 ^ 53" if x: "0 < x" for x
  proof -
    define k where "k = expo x - 52"
    define z where "z = x / 2 powi k"
    have p: "(0::rat) < 2 powi k" by simp
    have f: "fl x = 2 powi k * of_int (rne z)"
      using x unfolding fl_def Let_def k_def z_def by simp
    have kz: "2 powi k * z = x" unfolding z_def using p by simp
    have "2 powi k * (of_int (rne z) - z) = 2 powi k * of_int (rne z) - 2 powi k * z"
      by (rule right_diff_distrib)
    also have "\<dots> = fl x - x" unfolding kz f ..
    finally have "fl x - x = 2 powi k * (of_int (rne z) - z)" ..
    then have "\<bar>fl x - x\<bar> = 2 powi k * \<bar>of_int (rne z) - z\<bar>" using p by (simp add: abs_mult)
    also have "\<dots> \<le> 2 powi k * (1 / 2)" using rne_nearest[of z] p by (intro mult_left_mono) simp_all
    also have "\<dots> \<le> 2 powi k * (z / 2 ^ 53)"
    proof (rule mult_left_mono)
      have "2 ^ 52 \<le> z" using mantissa_bounds(1)[OF x] unfolding z_def k_def .
      then show "1 / 2 \<le> z / 2 ^ 53" by simp
      show "(0::rat) \<le> 2 powi k" by simp
    qed
    also have "\<dots> = (2 powi k * z) / 2 ^ 53" by simp
    finally show ?thesis unfolding kz .
  qed
  consider "0 < x" | "x = 0" | "x < 0" by linarith
  then show ?thesis
  proof cases
    case 1
    then show ?thesis using pos[of x] by simp
  next
    case 2
    then show ?thesis by simp
  next
    case 3
    then have "\<bar>fl (- x) - (- x)\<bar> \<le> (- x) / 2 ^ 53" by (intro pos) simp
    then show ?thesis using 3 by (simp add: fl_minus abs_minus_commute[of "fl x" x])
  qed
qed

lemma expo_unique:
  assumes "y \<noteq> 0" and "2 powi e \<le> \<bar>y\<bar>" and "\<bar>y\<bar> < 2 powi (e + 1)"
  shows "expo y = e"
proof (rule ccontr)
  assume ne: "expo y \<noteq> e"
  show False
  proof (cases "expo y < e")
    case True
    then have "expo y + 1 \<le> e" by simp
    then have "(2::rat) powi (expo y + 1) \<le> 2 powi e" by (intro power_int_increasing) simp_all
    with expo_bounds(2)[OF assms(1)] assms(2) show False by linarith
  next
    case False
    with ne have "e + 1 \<le> expo y" by simp
    then have "(2::rat) powi (e + 1) \<le> 2 powi (expo y)" by (intro power_int_increasing) simp_all
    with expo_bounds(1)[OF assms(1)] assms(3) show False by linarith
  qed
qed

text \<open>A double is read unchanged: rounding is idempotent.\<close>

lemma fl_idem_pos:
  assumes "0 < x"
  shows "fl (fl x) = fl x"
proof -
  define k where "k = expo x - 52"
  define n where "n = rne (x / 2 powi k)"
  have p: "(0::rat) < 2 powi k" by simp
  have f: "fl x = 2 powi k * of_int n"
    using assms unfolding fl_def Let_def k_def n_def by simp
  have fpos: "0 < fl x" by (rule fl_pos[OF assms])
  have f0: "fl x \<noteq> 0" using fpos by simp
  from mantissa_bounds[OF assms] have z: "2 ^ 52 \<le> x / 2 powi k" "x / 2 powi k < 2 ^ 53"
    unfolding k_def .
  have "(2::int) ^ 52 \<le> \<lfloor>x / 2 powi k\<rfloor>" using z(1) by (simp add: le_floor_iff)
  then have lo: "(2::int) ^ 52 \<le> n" unfolding n_def using rne_floor_le[of "x / 2 powi k"] by linarith
  have "\<lceil>x / 2 powi k\<rceil> \<le> (2::int) ^ 53" using z(2) by (simp add: ceiling_le_iff)
  then have hi: "n \<le> (2::int) ^ 53" unfolding n_def using rne_le_ceiling[of "x / 2 powi k"] by linarith
  have k52: "(2::rat) powi (k + 52) = 2 powi k * 2 ^ 52"
  proof -
    have "(2::rat) powi (k + 52) = 2 powi k * 2 powi 52" by (rule power_int_add) simp
    then show ?thesis by (simp add: powi_pos)
  qed
  have k53: "(2::rat) powi (k + 53) = 2 powi k * 2 ^ 53"
  proof -
    have "(2::rat) powi (k + 53) = 2 powi k * 2 powi 53" by (rule power_int_add) simp
    then show ?thesis by (simp add: powi_pos)
  qed
  have k1: "(2::rat) powi (k + 1) = 2 powi k * 2"
  proof -
    have "(2::rat) powi (k + 1) = 2 powi k * 2 powi 1" by (rule power_int_add) simp
    then show ?thesis by simp
  qed
  show ?thesis
  proof (cases "n = 2 ^ 53")
    case True
    have v: "fl x = 2 powi (k + 53)" unfolding f True k53 by simp
    have "expo (fl x) = k + 53"
    proof (rule expo_unique[OF f0])
      show "2 powi (k + 53) \<le> \<bar>fl x\<bar>" unfolding v by simp
      have "(2::rat) powi (k + 53) < 2 powi (k + 53 + 1)" by (intro power_int_strict_increasing) simp_all
      then show "\<bar>fl x\<bar> < 2 powi (k + 53 + 1)" unfolding v by simp
    qed
    then have e: "expo (fl x) - 52 = k + 1" by simp
    have q: "fl x / 2 powi (k + 1) = of_int (2 ^ 52)"
      unfolding f True k1 using p by simp
    have "fl (fl x) = 2 powi (k + 1) * of_int (rne (fl x / 2 powi (k + 1)))"
      using f0 unfolding fl_def[of "fl x"] Let_def e by simp
    also have "\<dots> = 2 powi (k + 1) * of_int ((2::int) ^ 52)" unfolding q rne_of_int ..
    also have "\<dots> = fl x" unfolding f True k1 by simp
    finally show ?thesis .
  next
    case False
    with hi have hi': "n < 2 ^ 53" by simp
    have "(of_int ((2::int) ^ 52) :: rat) \<le> of_int n" using lo by (simp only: of_int_le_iff)
    then have lo_r: "(2::rat) ^ 52 \<le> of_int n" by simp
    have "(of_int n :: rat) < of_int ((2::int) ^ 53)" using hi' by (simp only: of_int_less_iff)
    then have hi_r: "(of_int n :: rat) < 2 ^ 53" by simp
    have "expo (fl x) = k + 52"
    proof (rule expo_unique[OF f0])
      have "2 powi k * 2 ^ 52 \<le> 2 powi k * (of_int n :: rat)"
        using lo_r p by (intro mult_left_mono) simp_all
      then show "2 powi (k + 52) \<le> \<bar>fl x\<bar>" unfolding k52 using fpos f by simp
      have lt: "2 powi k * (of_int n :: rat) < 2 powi k * 2 ^ 53"
        using hi_r p by (intro mult_strict_left_mono) simp_all
      have e1: "k + 52 + 1 = k + 53" by simp
      have a: "\<bar>fl x\<bar> = 2 powi k * of_int n" using fpos f by simp
      show "\<bar>fl x\<bar> < 2 powi (k + 52 + 1)" unfolding a e1 k53 by (rule lt)
    qed
    then have e: "expo (fl x) - 52 = k" by simp
    have q: "fl x / 2 powi k = of_int n" unfolding f using p by simp
    have "fl (fl x) = 2 powi k * of_int (rne (fl x / 2 powi k))"
      using f0 unfolding fl_def[of "fl x"] Let_def e by simp
    also have "\<dots> = 2 powi k * of_int n" unfolding q rne_of_int ..
    also have "\<dots> = fl x" by (rule f[symmetric])
    finally show ?thesis .
  qed
qed

lemma fl_idem: "fl (fl x) = fl x"
proof -
  consider "0 < x" | "x = 0" | "x < 0" by linarith
  then show ?thesis
  proof cases
    case 1
    then show ?thesis by (rule fl_idem_pos)
  next
    case 2
    then show ?thesis by simp
  next
    case 3
    then have "fl (fl (- x)) = fl (- x)" by (intro fl_idem_pos) simp
    then show ?thesis by (simp add: fl_minus)
  qed
qed

lemma fl_examples:
  "fl 10 = 10"
  "fl (1 / 2) = 1 / 2"
  "fl (1 / 10) = 3602879701896397 / 36028797018963968"
  "fl (6 / 10) = 5404319552844595 / 9007199254740992"
  "fl (- 1 / 3) = - (6004799503160661 / 18014398509481984)"
  "fl (fl (6 / 10) + fl (7 / 10)) = 5854679515581644 / 4503599627370496"
  "fl (9007199254740993) = 9007199254740992"
  "fl (9007199254740995) = 9007199254740996"
  by (code_simp, code_simp, code_simp, code_simp, code_simp, code_simp, code_simp, code_simp)

subsection \<open>The aggregates of one day\<close>

lemma set_insert_cmp: "set (insert_cmp cmp x ys) = insert x (set ys)"
  by (induction ys) auto

lemma set_sort_cmp: "set (sort_cmp cmp xs) = set xs"
  unfolding sort_cmp_def by (induction xs) (simp_all add: set_insert_cmp)

lemma length_insert_cmp: "length (insert_cmp cmp x ys) = Suc (length ys)"
  by (induction ys) auto

lemma length_sort_cmp: "length (sort_cmp cmp xs) = length xs"
  unfolding sort_cmp_def by (induction xs) (simp_all add: length_insert_cmp)

lemma insert_cmp_not_Nil: "insert_cmp cmp x ys \<noteq> []"
  by (cases ys) auto

lemma last_insert_cmp:
  "last (insert_cmp cmp x ys) = (if \<forall>y \<in> set ys. 0 < cmp x y then x else last ys)"
proof (induction ys)
  case Nil
  then show ?case by simp
next
  case (Cons y ys)
  show ?case
  proof (cases "cmp x y \<le> 0")
    case True
    then show ?thesis by auto
  next
    case False
    then have "last (insert_cmp cmp x (y # ys)) = last (insert_cmp cmp x ys)"
      by (simp add: insert_cmp_not_Nil)
    with Cons False show ?thesis by auto
  qed
qed

lemma max_filter_not_Nil:
  fixes f :: "'a \<Rightarrow> nat"
  assumes "xs \<noteq> []"
  shows "filter (\<lambda>x. \<forall>y \<in> set xs. f y \<le> f x) xs \<noteq> []"
proof -
  have "Max (f ` set xs) \<in> f ` set xs" using assms by (intro Max_in) auto
  then obtain z where z: "z \<in> set xs" "f z = Max (f ` set xs)" by auto
  have "\<forall>y \<in> set xs. f y \<le> f z" unfolding z(2) by simp
  with z(1) show ?thesis by (auto simp: filter_empty_conv)
qed

lemma last_sort_cmp:
  fixes f :: "'a \<Rightarrow> nat"
  assumes "xs \<noteq> []"
  shows "last (sort_cmp (\<lambda>a b. int (f a) - int (f b)) xs)
         = last (filter (\<lambda>x. \<forall>y \<in> set xs. f y \<le> f x) xs)"
  using assms
proof (induction xs)
  case Nil
  then show ?case by simp
next
  case (Cons x xs)
  let ?cmp = "\<lambda>a b. int (f a) - int (f b)"
  have unfold: "sort_cmp ?cmp (x # xs) = insert_cmp ?cmp x (sort_cmp ?cmp xs)"
    by (simp add: sort_cmp_def)
  show ?case
  proof (cases "xs = []")
    case True
    then show ?thesis by (simp add: sort_cmp_def)
  next
    case False
    note ih = Cons.IH[OF False]
    show ?thesis
    proof (cases "\<forall>y \<in> set xs. f y < f x")
      case True
      then have "filter (\<lambda>z. \<forall>y \<in> set (x # xs). f y \<le> f z) xs = []"
        by (auto simp: filter_empty_conv)
      moreover have "\<forall>y \<in> set (x # xs). f y \<le> f x" using True by (auto intro: less_imp_le)
      ultimately have "filter (\<lambda>z. \<forall>y \<in> set (x # xs). f y \<le> f z) (x # xs) = [x]" by simp
      moreover have "last (insert_cmp ?cmp x (sort_cmp ?cmp xs)) = x"
        using True by (simp add: last_insert_cmp set_sort_cmp)
      ultimately show ?thesis unfolding unfold by simp
    next
      case nt: False
      then obtain y0 where y0: "y0 \<in> set xs" "f x \<le> f y0" by (auto simp: not_less)
      have eq: "filter (\<lambda>z. \<forall>y \<in> set (x # xs). f y \<le> f z) xs
              = filter (\<lambda>z. \<forall>y \<in> set xs. f y \<le> f z) xs"
      proof (rule filter_cong[OF refl])
        fix z assume "z \<in> set xs"
        show "(\<forall>y \<in> set (x # xs). f y \<le> f z) = (\<forall>y \<in> set xs. f y \<le> f z)"
          using y0 by (auto intro: order_trans)
      qed
      have ne: "filter (\<lambda>z. \<forall>y \<in> set xs. f y \<le> f z) xs \<noteq> []"
        by (rule max_filter_not_Nil[OF False])
      have "last (filter (\<lambda>z. \<forall>y \<in> set (x # xs). f y \<le> f z) (x # xs))
            = last (filter (\<lambda>z. \<forall>y \<in> set xs. f y \<le> f z) xs)"
        using ne eq by (simp del: set_simps)
      moreover have "last (insert_cmp ?cmp x (sort_cmp ?cmp xs)) = last (sort_cmp ?cmp xs)"
        using nt by (auto simp add: last_insert_cmp set_sort_cmp)
      ultimately show ?thesis unfolding unfold using ih by simp
    qed
  qed
qed

lemma length_filter_count_list: "length (filter (\<lambda>v. v = a) ds) = count_list ds a"
  by (induction ds) auto

lemma pop_sort_most_frequent:
  assumes "ds \<noteq> []"
  shows "pop (sort_cmp (\<lambda>a b. int (length (filter (\<lambda>v. v = a) ds))
                              - int (length (filter (\<lambda>v. v = b) ds))) ds)
         = Some (last_most_frequent ds)"
proof -
  have ne: "sort_cmp (\<lambda>a b. int (count_list ds a) - int (count_list ds b)) ds \<noteq> []"
    using assms length_sort_cmp[of "\<lambda>a b. int (count_list ds a) - int (count_list ds b)" ds]
    by (metis length_0_conv)
  show ?thesis
    unfolding length_filter_count_list pop_def last_most_frequent_def
    using ne last_sort_cmp[OF assms, of "count_list ds"] by simp
qed

lemma Math_min_Min: "xs \<noteq> [] \<Longrightarrow> Math_min xs = Min (set xs)"
proof (cases xs)
  case Nil
  assume "xs \<noteq> []"
  with Nil show ?thesis by simp
next
  case (Cons a list)
  then show ?thesis using Min.set_eq_fold[of a list] by simp
qed

lemma Math_max_Max: "xs \<noteq> [] \<Longrightarrow> Math_max xs = Max (set xs)"
proof (cases xs)
  case Nil
  assume "xs \<noteq> []"
  with Nil show ?thesis by simp
next
  case (Cons a list)
  then show ?thesis using Max.set_eq_fold[of a list] by simp
qed

lemma foldl_double_sum:
  "foldl (\<lambda>sum f. fl (sum + fl (g f))) a fs
     = foldl (\<lambda>s x. fl (s + x)) a (map (\<lambda>f. fl (g f)) fs)"
  by (induction fs arbitrary: a) simp_all

lemma Math_round_mono: "x \<le> y \<Longrightarrow> Math_round x \<le> Math_round y"
  unfolding Math_round_def by (simp add: floor_mono)

lemma Math_round_nearest: "\<bar>Math_round x - x\<bar> \<le> 1 / 2"
  unfolding Math_round_def by linarith

lemma Math_round_int: "Math_round (of_int n) = of_int n"
  unfolding Math_round_def by simp linarith

lemma round_tenth_Math_round: "round_tenth x = fl (Math_round (fl (x * 10)) / 10)"
  unfolding round_tenth_def Math_round_def ..

lemma round_tenth_mono: "x \<le> y \<Longrightarrow> round_tenth x \<le> round_tenth y"
proof -
  assume "x \<le> y"
  then have "fl (x * 10) \<le> fl (y * 10)" by (intro fl_mono) simp
  then have "Math_round (fl (x * 10)) \<le> Math_round (fl (y * 10))" by (rule Math_round_mono)
  then have "Math_round (fl (x * 10)) / 10 \<le> Math_round (fl (y * 10)) / 10"
    by (simp add: divide_right_mono)
  then show ?thesis unfolding round_tenth_Math_round by (rule fl_mono)
qed

lemma day_forecast_description:
  assumes "forecasts \<noteq> []"
  shows "description (day_forecast h d forecasts)
         = (if last_most_frequent (map weather0_description forecasts) = [] then ''Unknown''
            else last_most_frequent (map weather0_description forecasts))"
proof -
  have ds: "map weather0_description forecasts \<noteq> []" using assms by simp
  show ?thesis
    unfolding day_forecast_def Let_def pop_sort_most_frequent[OF ds] by simp
qed

lemma day_forecast_fields:
  assumes "forecasts \<noteq> []"
  shows "date (day_forecast h d forecasts) = toLocaleDateString h d"
    and "temperature_min (day_forecast h d forecasts)
         = round_tenth (Min (set (map (\<lambda>f. fl (main_temp f)) forecasts)))"
    and "temperature_max (day_forecast h d forecasts)
         = round_tenth (Max (set (map (\<lambda>f. fl (main_temp f)) forecasts)))"
    and "humidity (day_forecast h d forecasts)
         = of_int \<lfloor>double_mean (map (\<lambda>f. fl (main_humidity f)) forecasts) + 1 / 2\<rfloor>"
    and "windSpeed (day_forecast h d forecasts)
         = round_tenth (double_mean (map (\<lambda>f. fl (wind_speed f)) forecasts))"
proof -
  have ne: "map (\<lambda>f. fl (main_temp f)) forecasts \<noteq> []" using assms by simp
  show "date (day_forecast h d forecasts) = toLocaleDateString h d"
    by (simp add: day_forecast_def Let_def)
  show "temperature_min (day_forecast h d forecasts)
         = round_tenth (Min (set (map (\<lambda>f. fl (main_temp f)) forecasts)))"
    unfolding round_tenth_Math_round Math_min_Min[OF ne, symmetric]
    by (simp add: day_forecast_def Let_def)
  show "temperature_max (day_forecast h d forecasts)
         = round_tenth (Max (set (map (\<lambda>f. fl (main_temp f)) forecasts)))"
    unfolding round_tenth_Math_round Math_max_Max[OF ne, symmetric]
    by (simp add: day_forecast_def Let_def)
  show "humidity (day_forecast h d forecasts)
         = of_int \<lfloor>double_mean (map (\<lambda>f. fl (main_humidity f)) forecasts) + 1 / 2\<rfloor>"
    unfolding double_mean_def double_sum_def foldl_double_sum[symmetric]
    by (simp add: day_forecast_def Let_def Math_round_def)
  show "windSpeed (day_forecast h d forecasts)
         = round_tenth (double_mean (map (\<lambda>f. fl (wind_speed f)) forecasts))"
    unfolding round_tenth_Math_round double_mean_def double_sum_def foldl_double_sum[symmetric]
    by (simp add: day_forecast_def Let_def)
qed

lemma last_most_frequent_props:
  assumes "ds \<noteq> []"
  shows "last_most_frequent ds \<in> set ds"
    and "\<forall>d' \<in> set ds. count_list ds d' \<le> count_list ds (last_most_frequent ds)"
proof -
  let ?P = "\<lambda>d. \<forall>d' \<in> set ds. count_list ds d' \<le> count_list ds d"
  have ne: "filter ?P ds \<noteq> []" by (rule max_filter_not_Nil[OF assms])
  then have "last (filter ?P ds) \<in> set (filter ?P ds)" by (rule last_in_set)
  then show "last_most_frequent ds \<in> set ds"
    and "\<forall>d' \<in> set ds. count_list ds d' \<le> count_list ds (last_most_frequent ds)"
    unfolding last_most_frequent_def by simp_all
qed

subsection \<open>The handlers\<close>

text \<open>Of the host, \<open>processForecastData\<close> uses the locale only.\<close>

lemma processForecastData_locale:
  "toLocaleDateString h = toLocaleDateString h'
     \<Longrightarrow> processForecastData h items days = processForecastData h' items days"
  unfolding processForecastData_closed by (simp add: day_forecast_def)

lemma getCurrentWeather_text:
  "snd (getCurrentWeather h args) = Inr resp \<Longrightarrow> \<exists>t. resp = \<lparr>content = [Content ''text'' t]\<rparr>"
  unfolding getCurrentWeather_def
  by (auto simp: Let_def text_response_def split: sum.splits prod.splits if_splits)

lemma getWeatherForecast_text:
  "snd (getWeatherForecast h args) = Inr resp \<Longrightarrow> \<exists>t. resp = \<lparr>content = [Content ''text'' t]\<rparr>"
  unfolding getWeatherForecast_def
  by (auto simp: Let_def text_response_def split: sum.splits prod.splits if_splits)

lemma searchLocations_text:
  "snd (searchLocations h args) = Inr resp \<Longrightarrow> \<exists>t. resp = \<lparr>content = [Content ''text'' t]\<rparr>"
  unfolding searchLocations_def
  by (auto simp: Let_def text_response_def split: sum.splits prod.splits if_splits)

lemma callTool_switch_text:
  "snd (callTool_switch h tool args) = Inr resp \<Longrightarrow> \<exists>t. resp = \<lparr>content = [Content ''text'' t]\<rparr>"
  unfolding callTool_switch_def
  using getCurrentWeather_text getWeatherForecast_text searchLocations_text
  by (auto split: if_splits)

lemma locationLines_place_block:
  "locationLines h acc (index, toLocationData item) = acc @ place_block h (index, item)"
  by (simp add: locationLines_def place_block_def toLocationData_def displayName_def nl_def
      glyph_pin_def split: option.splits)

lemma foldl_locationLines:
  "foldl (locationLines h) acc (enumerate n (map toLocationData data))
     = acc @ concat (map (place_block h) (enumerate n data))"
  by (induction data arbitrary: acc n) (simp_all add: locationLines_place_block)

lemma locationsText_blocks:
  "locationsText h query (map toLocationData data) =
     ''**Found '' @ show_nat (length data) @ '' location(s) for '' @ [CHR 0x22] @ query
       @ [CHR 0x22] @ '':**'' @ [CHR 0x0A, CHR 0x0A]
     @ concat (map (place_block h) (enumerate 0 data))"
  unfolding locationsText_def foldl_locationLines by (simp add: dq_def nl_def)

lemma trim_without_trailing_space:
  assumes "s \<noteq> []" and "\<not> is_space (hd s)"
  shows "trim s = without_trailing_space s"
proof -
  have d: "dropWhile is_space s = s" using assms by (cases s) simp_all
  have p: "is_space = (\<lambda>c. c \<in> set [CHR 0x20, CHR 0x09, CHR 0x0A, CHR 0x0B, CHR 0x0C, CHR 0x0D])"
    by (rule ext) (simp only: is_space_def)
  have "trim s = rev (dropWhile is_space (rev s))" unfolding trim_def d ..
  also have "\<dots> = without_trailing_space s" unfolding without_trailing_space_def p ..
  finally show ?thesis .
qed

lemma locationsText_trim:
  "trim (locationsText h query (map toLocationData data)) =
     without_trailing_space
       (''**Found '' @ show_nat (length data) @ '' location(s) for '' @ [CHR 0x22] @ query
          @ [CHR 0x22] @ '':**'' @ [CHR 0x0A, CHR 0x0A]
        @ concat (map (place_block h) (enumerate 0 data)))"
proof -
  have "locationsText h query (map toLocationData data) \<noteq> []"
    and "\<not> is_space (hd (locationsText h query (map toLocationData data)))"
    unfolding locationsText_blocks by (simp_all add: is_space_def)
  then have "trim (locationsText h query (map toLocationData data))
               = without_trailing_space (locationsText h query (map toLocationData data))"
    by (rule trim_without_trailing_space)
  then show ?thesis unfolding locationsText_blocks .
qed

section \<open>The properties of the specification\<close>

subsection \<open>Evaluations shared by the examples\<close>

text \<open>
  The four entries of 1 January 1970 in \<open>one_day\<close>: the series has the doubles nearest to
  9.8, 15.3 and 4.1.
\<close>

lemma one_day_forecast:
  "processForecastData example_host one_day 1 =
     Inr [\<lparr>date = ''1970-01-01'', temperature_min = fl (49 / 5), temperature_max = fl (153 / 10),
            description = ''rain'', humidity = 51, windSpeed = fl (41 / 10)\<rparr>]"
  by code_simp

lemma one_day_doubles:
  "fl (49 / 5) = 2758454771764429 / 281474976710656"
  "fl (153 / 10) = 4306567143673037 / 281474976710656"
  "fl (41 / 10) = 2308094809027379 / 562949953421312"
  by (code_simp, code_simp, code_simp)

lemma three_days_forecast:
  "processForecastData example_host three_days 3 =
     Inr [\<lparr>date = ''1970-01-02'', temperature_min = 10, temperature_max = 10,
            description = ''rain'', humidity = 50, windSpeed = 3\<rparr>,
          \<lparr>date = ''1970-01-01'', temperature_min = 12, temperature_max = 12,
            description = ''clear sky'', humidity = 60, windSpeed = 4\<rparr>,
          \<lparr>date = ''1970-01-03'', temperature_min = 8, temperature_max = 8,
            description = ''snow'', humidity = 70, windSpeed = 5\<rparr>]"
  by code_simp

lemma three_days_forecast_fraction:
  "processForecastData example_host three_days (5 / 2) =
     Inr [\<lparr>date = ''1970-01-02'', temperature_min = 10, temperature_max = 10,
            description = ''rain'', humidity = 50, windSpeed = 3\<rparr>,
          \<lparr>date = ''1970-01-01'', temperature_min = 12, temperature_max = 12,
            description = ''clear sky'', humidity = 60, windSpeed = 4\<rparr>,
          \<lparr>date = ''1970-01-03'', temperature_min = 8, temperature_max = 8,
            description = ''snow'', humidity = 70, windSpeed = 5\<rparr>]"
  by code_simp

lemma three_days_dates:
  "first_occurrences (map utc_date three_days) = [''1970-01-02'', ''1970-01-01'', ''1970-01-03'']"
  by code_simp

lemma three_days_card: "card (set (map utc_date three_days)) = 3"
  using length_first_occurrences[of "map utc_date three_days"] unfolding three_days_dates by simp

lemma one_day_humidities: "map main_humidity (day_entries one_day 0) = [50, 51, 51, 51]"
  by code_simp

lemma one_day_descriptions:
  "map weather0_description (day_entries one_day 0)
     = [''rain'', ''clear sky'', ''clear sky'', ''rain'']"
  by code_simp

lemma london_parses:
  "GetCurrentWeatherSchema_parse london_args = Inr (''London'', ''metric'')"
  "GetWeatherForecastSchema_parse london_args = Inr (''London'', 3, ''metric'')"
  "SearchLocationSchema_parse london_args = Inr (''London'', 1)"
  by (simp_all add: london_args_def GetCurrentWeatherSchema_parse_def
      GetWeatherForecastSchema_parse_def SearchLocationSchema_parse_def
      z_string_def z_units_def z_number_def)

text \<open>
  The two weather handlers on a provider that answers: the text of the forecast has the
  three days of the payload, the text of the current weather has the fields of the payload.
\<close>

lemma getWeatherForecast_example:
  "getWeatherForecast forecast_host london_args =
     ([''https://api.openweathermap.org/data/2.5/forecast?q=London&units=metric&appid=k1''],
      Inr \<lparr>content = [Content ''text''
        (''**3-Day Weather Forecast for London, GB**'' @ [CHR 0x0A, CHR 0x0A]
         @ ''**Day 1 - 1970-01-02**'' @ [CHR 0x0A]
         @ glyph_temperature @ '' **Temperature:** 10'' @ glyph_degree @ ''C - 10''
           @ glyph_degree @ ''C'' @ [CHR 0x0A]
         @ glyph_condition @ '' **Condition:** rain'' @ [CHR 0x0A]
         @ glyph_humidity @ '' **Humidity:** 50%'' @ [CHR 0x0A]
         @ glyph_wind @ '' **Wind Speed:** 3 m/s'' @ [CHR 0x0A, CHR 0x0A]
         @ ''**Day 2 - 1970-01-01**'' @ [CHR 0x0A]
         @ glyph_temperature @ '' **Temperature:** 12'' @ glyph_degree @ ''C - 12''
           @ glyph_degree @ ''C'' @ [CHR 0x0A]
         @ glyph_condition @ '' **Condition:** clear sky'' @ [CHR 0x0A]
         @ glyph_humidity @ '' **Humidity:** 60%'' @ [CHR 0x0A]
         @ glyph_wind @ '' **Wind Speed:** 4 m/s'' @ [CHR 0x0A, CHR 0x0A]
         @ ''**Day 3 - 1970-01-03**'' @ [CHR 0x0A]
         @ glyph_temperature @ '' **Temperature:** 8'' @ glyph_degree @ ''C - 8''
           @ glyph_degree @ ''C'' @ [CHR 0x0A]
         @ glyph_condition @ '' **Condition:** snow'' @ [CHR 0x0A]
         @ glyph_humidity @ '' **Humidity:** 70%'' @ [CHR 0x0A]
         @ glyph_wind @ '' **Wind Speed:** 5 m/s'')]\<rparr>)"
proof -
  have k: "OPENWEATHER_API_KEY forecast_host = ''k1''"
    by (simp add: OPENWEATHER_API_KEY_def forecast_host_def example_host_def)
  have e: "encodeURIComponent forecast_host ''London'' = Inr ''London''"
    by (simp add: forecast_host_def example_host_def)
  have u: "forecast_url forecast_host ''London'' ''metric''
             = ''https://api.openweathermap.org/data/2.5/forecast?q=London&units=metric&appid=k1''"
    by (simp add: forecast_url_def OPENWEATHER_BASE_URL_def k)
  have f: "fetch_forecast forecast_host x = Inr (http_reply True 200 ''OK''
          (Inr \<lparr> data_list = three_days, data_city_name = ''London'',
                 data_city_country = ''GB'' \<rparr>))" for x
    by (simp add: forecast_host_def)
  have l: "toLocaleDateString forecast_host = toLocaleDateString example_host"
    by (simp add: forecast_host_def)
  note p = three_days_forecast[folded processForecastData_locale[OF l]]
  have t: "trim (forecastText forecast_host ''London'' ''GB'' 3 ''metric''
       [\<lparr>date = ''1970-01-02'', temperature_min = 10, temperature_max = 10,
            description = ''rain'', humidity = 50, windSpeed = 3\<rparr>,
          \<lparr>date = ''1970-01-01'', temperature_min = 12, temperature_max = 12,
            description = ''clear sky'', humidity = 60, windSpeed = 4\<rparr>,
          \<lparr>date = ''1970-01-03'', temperature_min = 8, temperature_max = 8,
            description = ''snow'', humidity = 70, windSpeed = 5\<rparr>])
     = ''**3-Day Weather Forecast for London, GB**'' @ [CHR 0x0A, CHR 0x0A]
         @ ''**Day 1 - 1970-01-02**'' @ [CHR 0x0A]
         @ glyph_temperature @ '' **Temperature:** 10'' @ glyph_degree @ ''C - 10''
           @ glyph_degree @ ''C'' @ [CHR 0x0A]
         @ glyph_condition @ '' **Condition:** rain'' @ [CHR 0x0A]
         @ glyph_humidity @ '' **Humidity:** 50%'' @ [CHR 0x0A]
         @ glyph_wind @ '' **Wind Speed:** 3 m/s'' @ [CHR 0x0A, CHR 0x0A]
         @ ''**Day 2 - 1970-01-01**'' @ [CHR 0x0A]
         @ glyph_temperature @ '' **Temperature:** 12'' @ glyph_degree @ ''C - 12''
           @ glyph_degree @ ''C'' @ [CHR 0x0A]
         @ glyph_condition @ '' **Condition:** clear sky'' @ [CHR 0x0A]
         @ glyph_humidity @ '' **Humidity:** 60%'' @ [CHR 0x0A]
         @ glyph_wind @ '' **Wind Speed:** 4 m/s'' @ [CHR 0x0A, CHR 0x0A]
         @ ''**Day 3 - 1970-01-03**'' @ [CHR 0x0A]
         @ glyph_temperature @ '' **Temperature:** 8'' @ glyph_degree @ ''C - 8''
           @ glyph_degree @ ''C'' @ [CHR 0x0A]
         @ glyph_condition @ '' **Condition:** snow'' @ [CHR 0x0A]
         @ glyph_humidity @ '' **Humidity:** 70%'' @ [CHR 0x0A]
         @ glyph_wind @ '' **Wind Speed:** 5 m/s''"
    by code_simp
  show ?thesis
    unfolding getWeatherForecast_def
    by (simp add: london_parses k e u f p http_reply_def Let_def text_response_def t)
qed

lemma getCurrentWeather_example:
  "getCurrentWeather weather_host london_args =
     ([''https://api.openweathermap.org/data/2.5/weather?q=London&units=metric&appid=k1''],
      Inr \<lparr>content = [Content ''text''
        (''**Current Weather for London, GB**'' @ [CHR 0x0A, CHR 0x0A]
         @ glyph_temperature @ '' **Temperature:** 12'' @ glyph_degree @ ''C'' @ [CHR 0x0A]
         @ glyph_condition @ '' **Condition:** light rain'' @ [CHR 0x0A]
         @ glyph_humidity @ '' **Humidity:** 81%'' @ [CHR 0x0A]
         @ glyph_wind @ '' **Wind Speed:** 4 m/s'' @ [CHR 0x0A, CHR 0x0A]
         @ ''*Updated: 11/2/2026, 9:00:00 AM*'')]\<rparr>)"
proof -
  have k: "OPENWEATHER_API_KEY weather_host = ''k1''"
    by (simp add: OPENWEATHER_API_KEY_def weather_host_def example_host_def)
  have e: "encodeURIComponent weather_host ''London'' = Inr ''London''"
    by (simp add: weather_host_def example_host_def)
  have u: "weather_url weather_host ''London'' ''metric''
             = ''https://api.openweathermap.org/data/2.5/weather?q=London&units=metric&appid=k1''"
    by (simp add: weather_url_def OPENWEATHER_BASE_URL_def k)
  have f: "fetch_weather weather_host x = Inr (http_reply True 200 ''OK''
          (Inr london_weather))" for x
    by (simp add: weather_host_def)
  have t: "currentWeatherText weather_host
             london_weather ''metric''
     = ''**Current Weather for London, GB**'' @ [CHR 0x0A, CHR 0x0A]
         @ glyph_temperature @ '' **Temperature:** 12'' @ glyph_degree @ ''C'' @ [CHR 0x0A]
         @ glyph_condition @ '' **Condition:** light rain'' @ [CHR 0x0A]
         @ glyph_humidity @ '' **Humidity:** 81%'' @ [CHR 0x0A]
         @ glyph_wind @ '' **Wind Speed:** 4 m/s'' @ [CHR 0x0A, CHR 0x0A]
         @ ''*Updated: 11/2/2026, 9:00:00 AM*''"
    by code_simp
  show ?thesis
    unfolding getCurrentWeather_def
    by (simp add: london_parses k e u f http_reply_def Let_def text_response_def t)
qed



text \<open>
  The wind speeds 0.6 and 0.7 of one date: their sum in double precision is
  1.2999999999999998, half of it times ten is 6.499999999999999, which rounds to 6, and
  the entry has the wind speed 0.6 (the double nearest to it), although the exact mean is
  0.65.
\<close>

lemma near_tie_forecast:
  "processForecastData example_host near_tie_day 1 =
     Inr [\<lparr>date = ''1970-01-01'', temperature_min = 10, temperature_max = 10,
            description = ''rain'', humidity = 50,
            windSpeed = 5404319552844595 / 9007199254740992\<rparr>]"
  "fl (6 / 10) = 5404319552844595 / 9007199254740992"
  "double_mean (map (\<lambda>f. fl (wind_speed f)) (day_entries near_tie_day 0))
     = 1463669878895411 / 2251799813685248"
  "mean (map wind_speed (day_entries near_tie_day 0)) = 13 / 20"
  by (code_simp, code_simp, code_simp, code_simp)

subsection \<open>C1: the number of per-day entries\<close>

text \<open>
  Claim C1, amended. The day count is validated as a number between 1 and 5 and need not be
  whole, and the loop stops at the first counter value that is not below it. So, whenever
  every timestamp is a valid date, \<open>processForecastData\<close> returns a series, and the series
  has exactly \<open>min \<lceil>days\<rceil> d\<close> entries, \<open>d\<close> being the number of distinct UTC calendar
  dates of the upstream entries. For a whole day count this is \<open>min days d\<close>, as the claim
  has it (\<open>forecast_series_length_whole\<close>).
\<close>

theorem forecast_series_length:
  assumes "\<forall>i \<in> set items. valid_time i"
  shows "\<exists>r. processForecastData h items days = Inr r
           \<and> length r = min (nat \<lceil>days\<rceil>) (card (set (map utc_date items)))"
  using assms unfolding processForecastData_closed
  by (simp add: length_first_occurrences min.commute)

text \<open>Three dates upstream, two days requested: two entries.\<close>

theorem forecast_series_length_witness:
  "list_all valid_time three_days
   \<and> (\<exists>r. processForecastData example_host three_days 2 = Inr r \<and> length r = 2)"
proof -
  have v: "\<forall>i \<in> set three_days. valid_time i"
    by (simp add: three_days_def entry_def valid_time_def)
  from forecast_series_length[OF v, of example_host 2] three_days_card v
  show ?thesis by (simp add: list_all_iff)
qed

text \<open>
  Claim C1 as stated fails for a day count that is not whole: the schema accepts 2.5 days,
  and with 2.5 days requested and three dates upstream the series has 3 entries, while
  \<open>min 2.5 3\<close> is 2.5.
\<close>

theorem forecast_series_length_counterexample:
  "GetWeatherForecastSchema_parse
     (Some (JObj [(''location'', JStr ''London''), (''days'', JNum (5 / 2))]))
     = Inr (''London'', 5 / 2, ''metric'')
   \<and> processForecastData example_host three_days (5 / 2) =
     Inr [\<lparr>date = ''1970-01-02'', temperature_min = 10, temperature_max = 10,
            description = ''rain'', humidity = 50, windSpeed = 3\<rparr>,
          \<lparr>date = ''1970-01-01'', temperature_min = 12, temperature_max = 12,
            description = ''clear sky'', humidity = 60, windSpeed = 4\<rparr>,
          \<lparr>date = ''1970-01-03'', temperature_min = 8, temperature_max = 8,
            description = ''snow'', humidity = 70, windSpeed = 5\<rparr>]
   \<and> card (set (map utc_date three_days)) = 3
   \<and> rat_of_nat 3 \<noteq> min (5 / 2) (rat_of_nat 3)"
  using three_days_forecast_fraction three_days_card
  by (simp add: GetWeatherForecastSchema_parse_def z_string_def z_units_def z_number_def)

lemma forecast_series_length_whole:
  assumes "\<forall>i \<in> set items. valid_time i"
  shows "\<exists>r. processForecastData h items (of_nat n) = Inr r
           \<and> length r = min n (card (set (map utc_date items)))"
  using assms unfolding processForecastData_closed
  by (simp add: length_first_occurrences min.commute)

subsection \<open>C2: the aggregates of one day\<close>

text \<open>
  Claim C2, amended. For every entry \<open>r ! i\<close> of a returned series, the upstream entries
  of its date (\<open>day_entries items i\<close>, never empty) determine it, all arithmetic being
  that of doubles: the minimum temperature is the minimum of their temperatures rounded to
  one decimal, the maximum temperature is their maximum rounded to one decimal, the wind
  speed is the mean of their wind speeds (the sum from left to right, divided by the count)
  rounded to one decimal, and the humidity is the mean of their humidities rounded to the
  nearest whole number (not the mean itself).
\<close>

theorem day_entry_aggregates:
  assumes "processForecastData h items days = Inr r" and "i < length r"
  shows "day_entries items i \<noteq> []
       \<and> temperature_min (r ! i)
           = round_tenth (Min (set (map (\<lambda>f. fl (main_temp f)) (day_entries items i))))
       \<and> temperature_max (r ! i)
           = round_tenth (Max (set (map (\<lambda>f. fl (main_temp f)) (day_entries items i))))
       \<and> humidity (r ! i)
           = of_int \<lfloor>double_mean (map (\<lambda>f. fl (main_humidity f)) (day_entries items i))
                     + 1 / 2\<rfloor>
       \<and> windSpeed (r ! i)
           = round_tenth (double_mean (map (\<lambda>f. fl (wind_speed f)) (day_entries items i)))"
  using processForecastData_nth[OF assms]
  by (simp add: day_forecast_fields)

text \<open>
  Four entries of one date: temperatures 12.1, 9.8, 15.26 and 11, humidities 50, 51, 51 and
  51, wind speeds 3.1, 4.2, 4 and 5.
\<close>

theorem day_entry_aggregates_witness:
  "processForecastData example_host one_day 1 =
     Inr [\<lparr>date = ''1970-01-01'', temperature_min = fl (49 / 5), temperature_max = fl (153 / 10),
            description = ''rain'', humidity = 51, windSpeed = fl (41 / 10)\<rparr>]
   \<and> round_tenth (Min (set (map (\<lambda>f. fl (main_temp f)) (day_entries one_day 0))))
       = fl (49 / 5)
   \<and> round_tenth (Max (set (map (\<lambda>f. fl (main_temp f)) (day_entries one_day 0))))
       = fl (153 / 10)
   \<and> rat_of_int \<lfloor>double_mean (map (\<lambda>f. fl (main_humidity f)) (day_entries one_day 0))
                  + 1 / 2\<rfloor> = 51
   \<and> round_tenth (double_mean (map (\<lambda>f. fl (wind_speed f)) (day_entries one_day 0)))
       = fl (41 / 10)"
  using day_entry_aggregates[OF one_day_forecast, of 0] one_day_forecast by simp

text \<open>
  Claim C2 as stated fails on the humidity: the humidities 50, 51, 51 and 51 have the mean
  50.75, in double precision too, and the entry has the humidity 51.
\<close>

theorem day_entry_aggregates_counterexample:
  "processForecastData example_host one_day 1 =
     Inr [\<lparr>date = ''1970-01-01'', temperature_min = fl (49 / 5), temperature_max = fl (153 / 10),
            description = ''rain'', humidity = 51, windSpeed = fl (41 / 10)\<rparr>]
   \<and> map main_humidity (day_entries one_day 0) = [50, 51, 51, 51]
   \<and> mean [50, 51, 51, 51] = 203 / 4
   \<and> double_mean (map fl [50, 51, 51, 51]) = 203 / 4
   \<and> (51 :: rat) \<noteq> 203 / 4"
proof -
  have c: "mean [50, 51, 51, 51] = 203 / 4" by (simp add: mean_def)
  have d: "double_mean (map fl [50, 51, 51, 51]) = 203 / 4" by code_simp
  show ?thesis using one_day_forecast one_day_humidities c d by simp
qed

subsection \<open>C3: the description of one day\<close>

text \<open>
  Claim C3, amended. For every entry \<open>r ! i\<close> of a returned series, let \<open>ds\<close> be the
  descriptions of the upstream entries of its date, in upstream order, and \<open>m\<close> the element
  at the last position of \<open>ds\<close> among the elements of maximal frequency in \<open>ds\<close> (so \<open>m\<close>
  occurs in \<open>ds\<close> and no description is more frequent). The description of the entry is
  \<open>m\<close>, unless \<open>m\<close> is the empty string: then it is \<^verbatim>\<open>Unknown\<close>.
\<close>

theorem day_entry_description:
  assumes "processForecastData h items days = Inr r" and "i < length r"
    and "ds = map weather0_description (day_entries items i)"
  shows "ds \<noteq> []
       \<and> description (r ! i) = (if last_most_frequent ds = [] then ''Unknown''
                                 else last_most_frequent ds)
       \<and> last_most_frequent ds \<in> set ds
       \<and> (\<forall>d' \<in> set ds. count_list ds d' \<le> count_list ds (last_most_frequent ds))"
proof -
  note n = processForecastData_nth[OF assms(1,2)]
  have ne: "ds \<noteq> []" using n(2) assms(3) by simp
  show ?thesis
    using ne last_most_frequent_props[OF ne] n
    by (simp add: day_forecast_description assms(3))
qed

text \<open>
  A tie of two descriptions, each twice: the element at the last position wins, although
  the other description was met later for the first time.
\<close>

theorem day_entry_description_witness:
  "processForecastData example_host one_day 1 =
     Inr [\<lparr>date = ''1970-01-01'', temperature_min = fl (49 / 5), temperature_max = fl (153 / 10),
            description = ''rain'', humidity = 51, windSpeed = fl (41 / 10)\<rparr>]
   \<and> map weather0_description (day_entries one_day 0)
       = [''rain'', ''clear sky'', ''clear sky'', ''rain'']
   \<and> last_most_frequent [''rain'', ''clear sky'', ''clear sky'', ''rain''] = ''rain''"
  using day_entry_description[OF one_day_forecast _ one_day_descriptions[symmetric]]
    one_day_forecast one_day_descriptions
  by (simp split: if_splits)

text \<open>
  Claim C3 as stated fails when the winning description is the empty string: the entry
  says \<^verbatim>\<open>Unknown\<close>, which is no description of the group.
\<close>

theorem day_entry_description_counterexample:
  "processForecastData example_host blank_day 1 =
     Inr [\<lparr>date = ''1970-01-01'', temperature_min = 10, temperature_max = 10,
            description = ''Unknown'', humidity = 50, windSpeed = 3\<rparr>]
   \<and> map weather0_description (day_entries blank_day 0) = [[]]
   \<and> ''Unknown'' \<notin> set [[]]"
proof -
  have a: "processForecastData example_host blank_day 1 =
     Inr [\<lparr>date = ''1970-01-01'', temperature_min = 10, temperature_max = 10,
            description = ''Unknown'', humidity = 50, windSpeed = 3\<rparr>]"
    by code_simp
  have b: "map weather0_description (day_entries blank_day 0) = [[]]" by code_simp
  show ?thesis using a b by simp
qed

subsection \<open>C4: minimum and maximum temperature\<close>

text \<open>
  Claim C4. In every returned series, every entry has a minimum temperature that is at most
  its maximum temperature.
\<close>

theorem min_le_max:
  assumes "processForecastData h items days = Inr r" and "f \<in> set r"
  shows "temperature_min f \<le> temperature_max f"
proof -
  from assms(2) obtain i where i: "i < length r" "f = r ! i" by (auto simp: in_set_conv_nth)
  note n = processForecastData_nth[OF assms(1) i(1)]
  let ?ts = "set (map (\<lambda>f. fl (main_temp f)) (day_entries items i))"
  have "Min ?ts \<le> Max ?ts" using n(2) by (intro Min.coboundedI Max_in) auto
  then have "round_tenth (Min ?ts) \<le> round_tenth (Max ?ts)" by (rule round_tenth_mono)
  then show ?thesis
    unfolding i(2) n(1) by (simp add: day_forecast_fields[OF n(2)])
qed

theorem min_le_max_witness:
  "processForecastData example_host one_day 1 =
     Inr [\<lparr>date = ''1970-01-01'', temperature_min = fl (49 / 5), temperature_max = fl (153 / 10),
            description = ''rain'', humidity = 51, windSpeed = fl (41 / 10)\<rparr>]
   \<and> fl (49 / 5) \<le> fl (153 / 10)"
  using min_le_max[OF one_day_forecast, of "\<lparr>date = ''1970-01-01'',
      temperature_min = fl (49 / 5), temperature_max = fl (153 / 10), description = ''rain'',
      humidity = 51, windSpeed = fl (41 / 10)\<rparr>"]
    one_day_forecast
  by simp

subsection \<open>C10: the grouping key and the order of the days\<close>

text \<open>
  Claim C10. A returned series has one entry for each of the first \<open>\<lceil>days\<rceil>\<close> distinct
  UTC calendar dates of the upstream entries, in the order of the first occurrence of each
  date upstream; the entry of a date is computed from exactly the upstream entries of that
  date (\<open>bucket\<close>), and its \<open>date\<close> is the locale's rendering of the date. Nothing sorts
  the dates.
\<close>

theorem grouping_and_order:
  assumes "processForecastData h items days = Inr r"
  shows "r = map (\<lambda>k. day_forecast h k (bucket items k))
               (take (nat \<lceil>days\<rceil>) (first_occurrences (map utc_date items)))
       \<and> map date r = map (toLocaleDateString h)
               (take (nat \<lceil>days\<rceil>) (first_occurrences (map utc_date items)))"
proof -
  note r = processForecastData_Inr[OF assms]
  have "date (day_forecast h k forecasts) = toLocaleDateString h k" for k forecasts
    by (simp add: day_forecast_def Let_def)
  then have "map date r = map (toLocaleDateString h)
               (take (nat \<lceil>days\<rceil>) (first_occurrences (map utc_date items)))"
    unfolding r by simp
  with r show ?thesis by simp
qed

text \<open>Upstream order 2 January, 1 January, 3 January: the series keeps it.\<close>

theorem grouping_and_order_witness:
  "processForecastData example_host three_days 3 =
     Inr [\<lparr>date = ''1970-01-02'', temperature_min = 10, temperature_max = 10,
            description = ''rain'', humidity = 50, windSpeed = 3\<rparr>,
          \<lparr>date = ''1970-01-01'', temperature_min = 12, temperature_max = 12,
            description = ''clear sky'', humidity = 60, windSpeed = 4\<rparr>,
          \<lparr>date = ''1970-01-03'', temperature_min = 8, temperature_max = 8,
            description = ''snow'', humidity = 70, windSpeed = 5\<rparr>]
   \<and> map dt three_days = [86400, 0, 172800]
   \<and> first_occurrences (map utc_date three_days)
       = [''1970-01-02'', ''1970-01-01'', ''1970-01-03'']"
proof -
  have b: "map dt three_days = [86400, 0, 172800]" by (simp add: three_days_def entry_def)
  from grouping_and_order[OF three_days_forecast] three_days_forecast b three_days_dates
  show ?thesis by simp
qed

subsection \<open>C5: the dispatcher always answers\<close>

text \<open>
  Claim C5. For every host, tool name and argument bag, \<open>callTool\<close> returns a response whose
  content is exactly one block, of type \<^verbatim>\<open>text\<close>. When the switch ends in a throw, of a
  handler or of the default case, the text of the block is \<^verbatim>\<open>Error: \<close> followed by the
  message of the thrown value (\<^verbatim>\<open>Unknown error occurred\<close> for a value that is no
  \<^verbatim>\<open>Error\<close>); when a handler returns a response, that response is passed on; for a tool
  name that is none of the three the text is \<^verbatim>\<open>Error: Unknown tool: \<close> and the name, and
  nothing has been requested.
\<close>

theorem callTool_wellformed:
  "\<exists>t. snd (callTool h tool args) = \<lparr>content = [Content ''text'' t]\<rparr>
     \<and> fst (callTool h tool args) = fst (callTool_switch h tool args)
     \<and> (\<forall>e. snd (callTool_switch h tool args) = Inl e \<longrightarrow>
            t = ''Error: '' @ (case e of
                                 Error m \<Rightarrow> m
                               | ZodError is \<Rightarrow> zod_message h is
                               | NonError \<Rightarrow> ''Unknown error occurred''))
     \<and> (\<forall>resp. snd (callTool_switch h tool args) = Inr resp \<longrightarrow>
            resp = \<lparr>content = [Content ''text'' t]\<rparr>)
     \<and> (tool \<notin> {''get_current_weather'', ''get_weather_forecast'', ''search_locations''}
          \<longrightarrow> t = ''Error: Unknown tool: '' @ tool \<and> fst (callTool h tool args) = [])"
proof (cases "callTool_switch h tool args")
  case (Pair requests res)
  show ?thesis
  proof (cases res)
    case (Inl e)
    have u: "tool \<notin> {''get_current_weather'', ''get_weather_forecast'', ''search_locations''}
          \<Longrightarrow> e = Error (''Unknown tool: '' @ tool) \<and> requests = []"
      using Pair Inl unfolding callTool_switch_def by auto
    show ?thesis
      using Pair Inl u by (auto simp: callTool_def errorMessage_def text_response_def)
  next
    case (Inr resp)
    then obtain t where t: "resp = \<lparr>content = [Content ''text'' t]\<rparr>"
      using callTool_switch_text[of h tool args resp] Pair by auto
    have k: "tool \<in> {''get_current_weather'', ''get_weather_forecast'', ''search_locations''}"
      using Pair Inr unfolding callTool_switch_def by (auto split: if_splits)
    show ?thesis
      using Pair Inr t k by (auto simp: callTool_def)
  qed
qed

text \<open>An unknown tool, and a \<^verbatim>\<open>fetch\<close> that rejects with a value that is no \<^verbatim>\<open>Error\<close>.\<close>

theorem callTool_wellformed_witness:
  "callTool example_host ''get_time'' None
     = ([], \<lparr>content = [Content ''text'' ''Error: Unknown tool: get_time'']\<rparr>)
   \<and> callTool (example_host \<lparr> fetch_weather := (\<lambda>url. Inl NonError) \<rparr>)
        ''get_current_weather'' london_args
       = ([''https://api.openweathermap.org/data/2.5/weather?q=London&units=metric&appid=k1''],
          \<lparr>content = [Content ''text'' ''Error: Unknown error occurred'']\<rparr>)"
proof -
  let ?h = "example_host \<lparr> fetch_weather := (\<lambda>url. Inl NonError) \<rparr>"
  have s: "callTool_switch example_host ''get_time'' None
             = ([], Inl (Error ''Unknown tool: get_time''))"
    by (simp add: callTool_switch_def)
  from callTool_wellformed[of example_host "''get_time''" None]
  obtain t where t: "snd (callTool example_host ''get_time'' None)
                       = \<lparr>content = [Content ''text'' t]\<rparr>"
    "fst (callTool example_host ''get_time'' None)
       = fst (callTool_switch example_host ''get_time'' None)"
    "\<forall>e. snd (callTool_switch example_host ''get_time'' None) = Inl e
         \<longrightarrow> t = ''Error: '' @ (case e of
                                   Error m \<Rightarrow> m
                                 | ZodError is \<Rightarrow> zod_message example_host is
                                 | NonError \<Rightarrow> ''Unknown error occurred'')"
    by blast
  have a: "callTool example_host ''get_time'' None
             = ([], \<lparr>content = [Content ''text'' ''Error: Unknown tool: get_time'']\<rparr>)"
    using t s by (simp add: prod_eq_iff)
  have s': "callTool_switch ?h ''get_current_weather'' london_args
       = ([''https://api.openweathermap.org/data/2.5/weather?q=London&units=metric&appid=k1''],
          Inl NonError)"
    by (simp add: callTool_switch_def getCurrentWeather_def london_args_def
        GetCurrentWeatherSchema_parse_def z_string_def z_units_def example_host_def
        OPENWEATHER_API_KEY_def weather_url_def OPENWEATHER_BASE_URL_def)
  from callTool_wellformed[of ?h "''get_current_weather''" london_args]
  obtain t' where t': "snd (callTool ?h ''get_current_weather'' london_args)
                       = \<lparr>content = [Content ''text'' t']\<rparr>"
    "fst (callTool ?h ''get_current_weather'' london_args)
       = fst (callTool_switch ?h ''get_current_weather'' london_args)"
    "\<forall>e. snd (callTool_switch ?h ''get_current_weather'' london_args) = Inl e
         \<longrightarrow> t' = ''Error: '' @ (case e of
                                    Error m \<Rightarrow> m
                                  | ZodError is \<Rightarrow> zod_message ?h is
                                  | NonError \<Rightarrow> ''Unknown error occurred'')"
    by blast
  have b: "callTool ?h ''get_current_weather'' london_args
       = ([''https://api.openweathermap.org/data/2.5/weather?q=London&units=metric&appid=k1''],
          \<lparr>content = [Content ''text'' ''Error: Unknown error occurred'']\<rparr>)"
    using t' s' by (simp add: prod_eq_iff)
  show ?thesis using a b by simp
qed

subsection \<open>C6: no credential\<close>




subsection \<open>C7: the translation of upstream failures\<close>




subsection \<open>C8: an empty result of the place search\<close>

text \<open>
  Claim C8. When the arguments are valid, a key is configured and the geocoding endpoint
  answers \<^verbatim>\<open>ok\<close> with an empty array, \<open>searchLocations\<close> has requested the geocoding URL
  once and returns (it does not throw) the response whose content is one block of type
  \<^verbatim>\<open>text\<close> with the \<^verbatim>\<open>No locations found\<close> message for the query, and the dispatcher
  passes that response on unchanged.
\<close>

theorem empty_search_result:
  assumes "SearchLocationSchema_parse args = Inr (query, limit)"
    and "env_OPENWEATHER_API_KEY h = Some key" and "key \<noteq> []"
    and "encodeURIComponent h query = Inr q"
    and "url = ''https://api.openweathermap.org/geo/1.0/direct?q='' @ q @ ''&limit=''
               @ number_toString h limit @ ''&appid='' @ key"
    and "fetch_geo h url = Inr response"
    and "ok response"
    and "json response = Inr []"
  shows "searchLocations h args
           = ([url], Inr \<lparr>content = [Content ''text''
                (''No locations found for '' @ [CHR 0x22] @ query @ [CHR 0x22]
                 @ ''. Please try a different search term.'')]\<rparr>)
       \<and> callTool h ''search_locations'' args
           = ([url], \<lparr>content = [Content ''text''
                (''No locations found for '' @ [CHR 0x22] @ query @ [CHR 0x22]
                 @ ''. Please try a different search term.'')]\<rparr>)"
proof -
  have k: "OPENWEATHER_API_KEY h = key" using assms(2) by (simp add: OPENWEATHER_API_KEY_def)
  have u: "geo_url h q limit = url" unfolding geo_url_def k assms(5) by simp
  have s: "searchLocations h args
           = ([url], Inr \<lparr>content = [Content ''text''
                (''No locations found for '' @ [CHR 0x22] @ query @ [CHR 0x22]
                 @ ''. Please try a different search term.'')]\<rparr>)"
    using assms(1,3,4,6,7,8) k u
    by (simp add: searchLocations_def Let_def text_response_def no_locations_found_def dq_def)
  then have "callTool h ''search_locations'' args
           = ([url], \<lparr>content = [Content ''text''
                (''No locations found for '' @ [CHR 0x22] @ query @ [CHR 0x22]
                 @ ''. Please try a different search term.'')]\<rparr>)"
    by (simp add: callTool_def callTool_switch_def)
  with s show ?thesis by simp
qed

text \<open>The empty query with limit 5, against a provider that answers with an empty array.\<close>

theorem empty_search_result_witness:
  "searchLocations (geo_host []) (Some (JObj [(''query'', JStr []), (''limit'', JNum 5)]))
     = ([''https://api.openweathermap.org/geo/1.0/direct?q=&limit=5&appid=k1''],
        Inr \<lparr>content = [Content ''text''
          (''No locations found for '' @ [CHR 0x22, CHR 0x22]
           @ ''. Please try a different search term.'')]\<rparr>)
   \<and> callTool (geo_host []) ''search_locations''
       (Some (JObj [(''query'', JStr []), (''limit'', JNum 5)]))
     = ([''https://api.openweathermap.org/geo/1.0/direct?q=&limit=5&appid=k1''],
        \<lparr>content = [Content ''text''
          (''No locations found for '' @ [CHR 0x22, CHR 0x22]
           @ ''. Please try a different search term.'')]\<rparr>)"
proof -
  let ?args = "Some (JObj [(''query'', JStr []), (''limit'', JNum 5)])"
  let ?url = "''https://api.openweathermap.org/geo/1.0/direct?q=&limit=5&appid=k1''"
  have p: "SearchLocationSchema_parse ?args = Inr ([], 5)"
    by (simp add: SearchLocationSchema_parse_def z_string_def z_number_def)
  have k: "env_OPENWEATHER_API_KEY (geo_host []) = Some ''k1''"
    by (simp add: geo_host_def example_host_def)
  have e: "encodeURIComponent (geo_host []) [] = Inr []"
    by (simp add: geo_host_def example_host_def)
  have n: "number_toString (geo_host []) 5 = ''5''"
    by (simp add: geo_host_def example_host_def show_int.simps digit_def)
  have u: "?url = ''https://api.openweathermap.org/geo/1.0/direct?q='' @ [] @ ''&limit=''
               @ number_toString (geo_host []) 5 @ ''&appid='' @ ''k1''"
    unfolding n by simp
  have f: "fetch_geo (geo_host []) ?url = Inr (http_reply True 200 ''OK'' (Inr []))"
    by (simp add: geo_host_def)
  have o: "ok (http_reply True 200 ''OK'' (Inr []))"
    and j: "json (http_reply True 200 ''OK'' (Inr []) :: (geo_item list) http_response) = Inr []"
    by (simp_all add: http_reply_def)
  from empty_search_result[OF p k _ e u f o j]
  show ?thesis by simp
qed

subsection \<open>C9: the place search lists every upstream element\<close>

text \<open>
  Claim C9. When the arguments are valid, a key is configured and the geocoding endpoint
  answers \<^verbatim>\<open>ok\<close> with a non-empty array, \<open>searchLocations\<close> returns the response whose
  content is one block of type \<^verbatim>\<open>text\<close>, and the text is, with the white space at its end
  removed, a header, which states the length of the upstream array, followed by one block
  of two lines (\<open>place_block\<close>) for each element of the upstream array, in upstream order
  and numbered from 1. The limit occurs in the URL only: the array is not cut to it.
\<close>

theorem search_lists_every_element:
  assumes "SearchLocationSchema_parse args = Inr (query, limit)"
    and "env_OPENWEATHER_API_KEY h = Some key" and "key \<noteq> []"
    and "encodeURIComponent h query = Inr q"
    and "url = ''https://api.openweathermap.org/geo/1.0/direct?q='' @ q @ ''&limit=''
               @ number_toString h limit @ ''&appid='' @ key"
    and "fetch_geo h url = Inr response"
    and "ok response"
    and "json response = Inr data"
    and "data \<noteq> []"
  shows "searchLocations h args
           = ([url], Inr \<lparr>content = [Content ''text''
                (without_trailing_space
                   (''**Found '' @ show_nat (length data) @ '' location(s) for '' @ [CHR 0x22]
                      @ query @ [CHR 0x22] @ '':**'' @ [CHR 0x0A, CHR 0x0A]
                    @ concat (map (place_block h) (enumerate 0 data))))]\<rparr>)"
proof -
  have k: "OPENWEATHER_API_KEY h = key" using assms(2) by (simp add: OPENWEATHER_API_KEY_def)
  have u: "geo_url h q limit = url" unfolding geo_url_def k assms(5) by simp
  show ?thesis
    using assms(1,3,4,6,7,8,9) k u
    by (simp add: searchLocations_def Let_def text_response_def locationsText_trim)
qed

text \<open>Limit 1 requested, two elements upstream: both are listed.\<close>

theorem search_lists_every_element_witness:
  "SearchLocationSchema_parse london_args = Inr (''London'', 1)
   \<and> length two_places = 2
   \<and> searchLocations (geo_host two_places) london_args
     = ([''https://api.openweathermap.org/geo/1.0/direct?q=London&limit=1&appid=k1''],
        Inr \<lparr>content = [Content ''text''
          (''**Found 2 location(s) for '' @ [CHR 0x22] @ ''London'' @ [CHR 0x22] @ '':**''
             @ [CHR 0x0A, CHR 0x0A]
           @ ''1. **London, England, GB**'' @ [CHR 0x0A]
           @ ''   '' @ [CHR 0xEF, CHR 0xA3, CHR 0xBF, CHR 0xC3, CHR 0xBC, CHR 0xC3, CHR 0xAC,
                        CHR 0xC3, CHR 0xA7]
             @ '' Coordinates: 51.0000, 0.0000'' @ [CHR 0x0A, CHR 0x0A]
           @ ''2. **London, CA**'' @ [CHR 0x0A]
           @ ''   '' @ [CHR 0xEF, CHR 0xA3, CHR 0xBF, CHR 0xC3, CHR 0xBC, CHR 0xC3, CHR 0xAC,
                        CHR 0xC3, CHR 0xA7]
             @ '' Coordinates: 42.0000, 81.0000'')]\<rparr>)"
proof -
  let ?h = "geo_host two_places"
  let ?url = "''https://api.openweathermap.org/geo/1.0/direct?q=London&limit=1&appid=k1''"
  have p: "SearchLocationSchema_parse london_args = Inr (''London'', 1)"
    by (rule london_parses)
  have k: "env_OPENWEATHER_API_KEY ?h = Some ''k1''"
    by (simp add: geo_host_def example_host_def)
  have e: "encodeURIComponent ?h ''London'' = Inr ''London''"
    by (simp add: geo_host_def example_host_def)
  have n: "number_toString ?h 1 = ''1''"
    by (simp add: geo_host_def example_host_def show_int.simps digit_def)
  have u: "?url = ''https://api.openweathermap.org/geo/1.0/direct?q='' @ ''London'' @ ''&limit=''
               @ number_toString ?h 1 @ ''&appid='' @ ''k1''"
    unfolding n by simp
  have f: "fetch_geo ?h ?url = Inr (http_reply True 200 ''OK'' (Inr two_places))"
    by (simp add: geo_host_def)
  have o: "ok (http_reply True 200 ''OK'' (Inr two_places))"
    and j: "json (http_reply True 200 ''OK'' (Inr two_places)) = Inr two_places"
    by (simp_all add: http_reply_def)
  have ne: "two_places \<noteq> []" by (simp add: two_places_def)
  have l: "length two_places = 2" by (simp add: two_places_def)
  have t: "without_trailing_space
     (''**Found '' @ show_nat (length two_places) @ '' location(s) for '' @ [CHR 0x22]
        @ ''London'' @ [CHR 0x22] @ '':**'' @ [CHR 0x0A, CHR 0x0A]
      @ concat (map (place_block ?h) (enumerate 0 two_places)))
     = ''**Found 2 location(s) for '' @ [CHR 0x22] @ ''London'' @ [CHR 0x22] @ '':**''
             @ [CHR 0x0A, CHR 0x0A]
           @ ''1. **London, England, GB**'' @ [CHR 0x0A]
           @ ''   '' @ [CHR 0xEF, CHR 0xA3, CHR 0xBF, CHR 0xC3, CHR 0xBC, CHR 0xC3, CHR 0xAC,
                        CHR 0xC3, CHR 0xA7]
             @ '' Coordinates: 51.0000, 0.0000'' @ [CHR 0x0A, CHR 0x0A]
           @ ''2. **London, CA**'' @ [CHR 0x0A]
           @ ''   '' @ [CHR 0xEF, CHR 0xA3, CHR 0xBF, CHR 0xC3, CHR 0xBC, CHR 0xC3, CHR 0xAC,
                        CHR 0xC3, CHR 0xA7]
             @ '' Coordinates: 42.0000, 81.0000''"
    by code_simp
  from search_lists_every_element[OF p k _ e u f o j ne]
  have "searchLocations ?h london_args
     = ([?url], Inr \<lparr>content = [Content ''text''
          (without_trailing_space
             (''**Found '' @ show_nat (length two_places) @ '' location(s) for '' @ [CHR 0x22]
                @ ''London'' @ [CHR 0x22] @ '':**'' @ [CHR 0x0A, CHR 0x0A]
              @ concat (map (place_block ?h) (enumerate 0 two_places))))]\<rparr>)"
    by simp
  then show ?thesis unfolding t using p l by simp
qed

end
